theory Spec2Isabelle
  imports Complex_Main "HOL-Library.Sublist"
begin

section \<open>Strings\<close>

text \<open>
  A JavaScript string is modelled as a \<^typ>\<open>string\<close>, one list element for each code
  unit, so \<open>length\<close> is the \<open>.length\<close> of the source. (Isabelle's \<^typ>\<open>char\<close> has
  256 values: the strings of the model are those whose code units are below 256.) The
  methods \<open>toLowerCase\<close> and \<open>toUpperCase\<close> of JavaScript follow the Unicode case
  mappings; they are parameters of the environment below. The two functions here map the
  ASCII letters only: they are what a regular expression with the flag \<open>i\<close> compares
  ASCII letters by, and they are the case mappings of the concrete instance.
\<close>

definition backslash :: char where
  "backslash = CHR 0x5C"

definition toLowerChar :: "char \<Rightarrow> char" where
  "toLowerChar c =
     (case map_of (zip ''ABCDEFGHIJKLMNOPQRSTUVWXYZ'' ''abcdefghijklmnopqrstuvwxyz'') c of
        Some d \<Rightarrow> d | None \<Rightarrow> c)"

definition toUpperChar :: "char \<Rightarrow> char" where
  "toUpperChar c =
     (case map_of (zip ''abcdefghijklmnopqrstuvwxyz'' ''ABCDEFGHIJKLMNOPQRSTUVWXYZ'') c of
        Some d \<Rightarrow> d | None \<Rightarrow> c)"

definition asciiLower :: "string \<Rightarrow> string" where
  "asciiLower = map toLowerChar"

definition asciiUpper :: "string \<Rightarrow> string" where
  "asciiUpper = map toUpperChar"

text \<open>\<open>s.startsWith(p)\<close>.\<close>

definition startsWith :: "string \<Rightarrow> string \<Rightarrow> bool" where
  "startsWith s p = prefix p s"

text \<open>\<open>s.includes(p)\<close>: \<open>p\<close> occurs in \<open>s\<close> as a contiguous substring.\<close>

fun includesStr :: "string \<Rightarrow> string \<Rightarrow> bool" where
  "includesStr [] p = (p = [])"
| "includesStr (c # cs) p = (prefix p (c # cs) \<or> includesStr cs p)"

text \<open>\<open>s.replace(/\\/g, '/')\<close>: every backslash becomes a forward slash.\<close>

definition replaceBackslashes :: "string \<Rightarrow> string" where
  "replaceBackslashes = map (\<lambda>c. if c = backslash then CHR ''/'' else c)"

text \<open>\<open>text.replace(/<\|endoftext\|>/g, '')\<close>: the matches are removed from left to right.\<close>

fun removeEndOfText :: "string \<Rightarrow> string" where
  "removeEndOfText [] = []"
| "removeEndOfText (c # cs) =
     (if prefix ''<|endoftext|>'' (c # cs) then removeEndOfText (drop 12 cs)
      else c # removeEndOfText cs)"

text \<open>\<open>s.trim()\<close>: the white space and line terminators among the code units below 256.\<close>

definition isSpaceChar :: "char \<Rightarrow> bool" where
  "isSpaceChar c =
     (c \<in> set [CHR '' '', CHR 0x09, CHR 0x0A, CHR 0x0B, CHR 0x0C, CHR 0x0D, CHR 0xA0])"

definition trim :: "string \<Rightarrow> string" where
  "trim s = rev (dropWhile isSpaceChar (rev (dropWhile isSpaceChar s)))"

text \<open>\<open>s.split(c)\<close> for a one-character separator.\<close>

fun splitOn :: "char \<Rightarrow> string \<Rightarrow> string list" where
  "splitOn sep [] = [[]]"
| "splitOn sep (c # cs) =
     (if c = sep then [] # splitOn sep cs
      else (case splitOn sep cs of [] \<Rightarrow> [[c]] | w # ws \<Rightarrow> (c # w) # ws))"

text \<open>Decimal digits of a number, as a template literal prints it.\<close>

fun showNat :: "nat \<Rightarrow> string" where
  "showNat n =
     (if n < 10 then [''0123456789'' ! n]
      else showNat (n div 10) @ [''0123456789'' ! (n mod 10)])"

declare showNat.simps [simp del]

section \<open>The environment of the main process\<close>

text \<open>
  What \<open>main.js\<close> takes from outside its own text is collected in one record: the platform,
  the two tables of \<open>excluded-files.js\<close> (a file of the repository that is not among the
  sources, so its tables are parameters), the tokenizer, the functions of Node's \<open>path\<close>
  module, and what the file system answers. A file-system call either fails with an error
  (its \<open>code\<close> and its \<open>message\<close>) or returns its result.
\<close>

datatype platform = Win32 | Darwin | Linux | OtherPlatform

datatype fs_error = FsError (err_code: string) (err_message: string)

text \<open>
  Modelled from the spec: the tokenizer. It is the encoder of the \<open>tiktoken\<close> package,
  which is not among the sources; the spec describes it as a BPE-style tokenizer. A
  tokenizer is given by its table of merges (a pair of adjacent tokens and the token that
  replaces it, in order of rank) and its special tokens. \<open>encode\<close> throws (\<open>None\<close>) when
  the text contains a special token, as \<open>tiktoken\<close> does for special tokens that are not
  allowed; otherwise it starts from one token for each code unit and applies the merge of
  lowest rank that occurs in the token list, until none occurs.
\<close>

record tokenizer =
  merges :: "((nat \<times> nat) \<times> nat) list"
  specialTokens :: "string list"

fun occursPair :: "nat \<times> nat \<Rightarrow> nat list \<Rightarrow> bool" where
  "occursPair p (x # y # zs) = (p = (x, y) \<or> occursPair p (y # zs))"
| "occursPair p zs = False"

fun mergePair :: "nat \<times> nat \<Rightarrow> nat \<Rightarrow> nat list \<Rightarrow> nat list" where
  "mergePair p c (x # y # zs) =
     (if p = (x, y) then c # mergePair p c zs else x # mergePair p c (y # zs))"
| "mergePair p c zs = zs"

lemma length_mergePair_le: "length (mergePair p c zs) \<le> length zs"
  by (induction p c zs rule: mergePair.induct) auto

lemma length_mergePair_less: "occursPair p zs \<Longrightarrow> length (mergePair p c zs) < length zs"
proof (induction p c zs rule: mergePair.induct)
  case (1 p c x y zs)
  show ?case
  proof (cases "p = (x, y)")
    case True
    then show ?thesis
      using length_mergePair_le [of p c zs] by simp
  next
    case False
    then show ?thesis
      using 1 by simp
  qed
qed simp_all

function bpe :: "((nat \<times> nat) \<times> nat) list \<Rightarrow> nat list \<Rightarrow> nat list" where
  "bpe table tokens =
     (case find (\<lambda>m. occursPair (fst m) tokens) table of
        None \<Rightarrow> tokens
      | Some m \<Rightarrow> bpe table (mergePair (fst m) (snd m) tokens))"
  by pat_completeness auto
termination
proof (relation "measure (\<lambda>(table, tokens). length tokens)", goal_cases)
  case 1
  show ?case by simp
next
  case (2 table tokens m)
  then have "occursPair (fst m) tokens"
    by (auto simp: find_Some_iff)
  then show ?case
    by (simp add: length_mergePair_less)
qed

declare bpe.simps [simp del]

definition encode :: "tokenizer \<Rightarrow> string \<Rightarrow> nat list option" where
  "encode tk text =
     (if list_ex (\<lambda>sp. sp \<noteq> [] \<and> includesStr text sp) (specialTokens tk) then None
      else Some (bpe (merges tk) (map of_char text)))"

record node_env =
  platform :: platform
  toLowerCase :: "string \<Rightarrow> string"
  toUpperCase :: "string \<Rightarrow> string"
  binaryExtensions :: "string list"
  excludedIgnores :: "string \<Rightarrow> bool"
  encoder :: "tokenizer option"
  chokidarLoaded :: bool
  appPath :: string
  loadGitignore :: "string \<Rightarrow> string \<Rightarrow> bool"
  path_isAbsolute :: "string \<Rightarrow> bool"
  path_resolve :: "string \<Rightarrow> string"
  path_join :: "string \<Rightarrow> string \<Rightarrow> string"
  path_relative :: "string \<Rightarrow> string \<Rightarrow> string"
  path_basename :: "string \<Rightarrow> string"
  path_extname :: "string \<Rightarrow> string"
  path_parse_ok :: "string \<Rightarrow> bool"
  fs_stat :: "string \<Rightarrow> fs_error + nat"
  fs_readFile :: "string \<Rightarrow> fs_error + string"

text \<open>
  \<^item> \<open>toLowerCase\<close> and \<open>toUpperCase\<close> are the string methods of JavaScript;
  \<^item> \<open>excludedIgnores\<close> is \<open>ignore().add(excludedFiles).ignores\<close>;
  \<^item> \<open>encoder\<close> is \<open>None\<close> when the tokenizer could not be initialised;
  \<^item> \<open>loadGitignore env rootDir\<close> is the \<open>ignores\<close> predicate of the filter that
    \<open>loadGitignore(rootDir)\<close> builds with the \<open>ignore\<close> package;
  \<^item> \<open>path_parse_ok p\<close> says that \<open>path.parse(p)\<close> does not throw;
  \<^item> \<open>fs_stat p\<close> is the \<open>size\<close> that \<open>fs.promises.stat(p)\<close> reports.
\<close>

section \<open>Path helpers of main.js\<close>

definition normalizePath :: "node_env \<Rightarrow> string \<Rightarrow> string" where
  "normalizePath env filePath =
     (if filePath = [] then filePath
      else if platform env = Win32 \<and> startsWith filePath [backslash, backslash]
        then [backslash, backslash] @ replaceBackslashes (drop 2 filePath)
      else replaceBackslashes filePath)"

definition ensureAbsolutePath :: "node_env \<Rightarrow> string \<Rightarrow> string" where
  "ensureAbsolutePath env inputPath =
     normalizePath env
       (if \<not> path_isAbsolute env inputPath then path_resolve env inputPath else inputPath)"

definition safePathJoin :: "node_env \<Rightarrow> string \<Rightarrow> string \<Rightarrow> string" where
  "safePathJoin env a b = normalizePath env (path_join env a b)"

definition safeRelativePath :: "node_env \<Rightarrow> string \<Rightarrow> string \<Rightarrow> string" where
  "safeRelativePath env from0 to0 =
     (let from1 = normalizePath env from0;
          to1 = normalizePath env to0;
          from2 = (if platform env = Win32 then toLowerCase env from1 else from1);
          to2 = (if platform env = Win32 then toLowerCase env to1 else to1)
      in normalizePath env (path_relative env from2 to2))"

definition isValidPath :: "node_env \<Rightarrow> string \<Rightarrow> bool" where
  "isValidPath env pathToCheck = path_parse_ok env pathToCheck"

text \<open>The test \<open>!isValidPath(relativePath) || relativePath.startsWith('..')\<close>.\<close>

definition outsideRoot :: "node_env \<Rightarrow> string \<Rightarrow> bool" where
  "outsideRoot env rel = (\<not> isValidPath env rel \<or> startsWith rel ''..'')"

text \<open>\<open>/\.app($|\/)/.test(fullPath)\<close>: \<open>.app\<close> at the end of the path or before a slash.\<close>

fun isAppBundle :: "string \<Rightarrow> bool" where
  "isAppBundle [] = False"
| "isAppBundle (c # cs) =
     (c # cs = ''.app'' \<or> prefix ''.app/'' (c # cs) \<or> isAppBundle cs)"

definition MAX_FILE_SIZE :: nat where
  "MAX_FILE_SIZE = 5 * 1024 * 1024"

definition MAX_DIRECTORY_LOAD_TIME :: nat where
  "MAX_DIRECTORY_LOAD_TIME = 60000"

definition CHUNK_SIZE :: nat where
  "CHUNK_SIZE = 20"

text \<open>\<open>isBinaryFile\<close> looks the lower-cased extension up with its leading dot.\<close>

definition isBinaryFile :: "node_env \<Rightarrow> string \<Rightarrow> bool" where
  "isBinaryFile env filePath =
     (let ext = toLowerCase env (path_extname env filePath)
      in ext \<in> set (binaryExtensions env))"

section \<open>Token counting\<close>

text \<open>
  \<open>Math.ceil(text.length / 4)\<close> is computed on natural numbers as \<open>(n + 3) div 4\<close>;
  lemma \<open>ceil_quarter\<close> below shows that this is the ceiling of the quotient.
\<close>

definition fallbackCount :: "string \<Rightarrow> nat" where
  "fallbackCount text = (length text + 3) div 4"

definition countTokens :: "node_env \<Rightarrow> string \<Rightarrow> nat" where
  "countTokens env text =
     (case encoder env of
        None \<Rightarrow> fallbackCount text
      | Some tk \<Rightarrow>
          (let cleanText = removeEndOfText text
           in case encode tk cleanText of
                Some tokens \<Rightarrow> length tokens
              | None \<Rightarrow> fallbackCount text))"

section \<open>File records\<close>

text \<open>
  The object that describes one file. A property that some branches of the source leave out
  (\<open>content\<close>, \<open>error\<close>, \<open>fileType\<close>, \<open>excludedByDefault\<close>, and \<open>extension\<close> and
  \<open>excluded\<close>, which only the serialised list carries) is an option: \<open>None\<close> is the
  absent property, which JavaScript reads as \<open>undefined\<close>. The field \<open>size\<close> of the
  source is \<open>size_bytes\<close> here.
\<close>

record file_data =
  name :: string
  path :: string
  relativePath :: string
  size_bytes :: nat
  isBinary :: bool
  isSkipped :: bool
  content :: "string option"
  tokenCount :: nat
  error :: "string option"
  fileType :: "string option"
  excludedByDefault :: "bool option"
  extension :: "string option"
  excluded :: "bool option"

section \<open>Default exclusion\<close>

text \<open>\<open>/^(CON|PRN|AUX|NUL|COM[1-9]|LPT[1-9])$/i.test(base)\<close>.\<close>

definition isReservedDeviceName :: "string \<Rightarrow> bool" where
  "isReservedDeviceName base =
     (let u = asciiUpper base
      in u \<in> set [''CON'', ''PRN'', ''AUX'', ''NUL''] \<or>
         (length u = 4 \<and> take 3 u \<in> set [''COM'', ''LPT''] \<and> u ! 3 \<in> set ''123456789''))"

definition shouldExcludeByDefault :: "node_env \<Rightarrow> string \<Rightarrow> string \<Rightarrow> bool" where
  "shouldExcludeByDefault env filePath0 rootDir0 =
     (let filePath = ensureAbsolutePath env filePath0;
          rootDir = ensureAbsolutePath env rootDir0;
          rel = safeRelativePath env rootDir filePath
      in if outsideRoot env rel then True
         else if platform env = Win32 \<and> isReservedDeviceName (path_basename env filePath)
           then True
         else if platform env = Win32 \<and>
                 (includesStr (toLowerCase env filePath)
                    (backslash # ''windows'' @ [backslash]) \<or>
                  includesStr (toLowerCase env filePath)
                    (backslash # ''system32'' @ [backslash]))
           then True
         else if platform env = Darwin \<and>
                 (includesStr filePath ''/.Spotlight-'' \<or> includesStr filePath ''/.Trashes'' \<or>
                  includesStr filePath ''/.fseventsd'')
           then True
         else if platform env = Linux \<and>
                 (startsWith filePath ''/proc/'' \<or> startsWith filePath ''/sys/'' \<or>
                  startsWith filePath ''/dev/'')
           then True
         else excludedIgnores env rel)"

section \<open>The watcher's single-file pipeline\<close>

text \<open>
  \<open>processSingleFile\<close> returns \<open>null\<close> (\<open>None\<close>) for a path outside the root or an ignored
  one. Both \<open>await\<close>s are inside its \<open>try\<close>: a failing \<open>stat\<close> or \<open>readFile\<close> ends in the
  \<open>catch\<close> block, which builds the record \<open>singleFileError\<close>.
\<close>

definition singleFileError :: "node_env \<Rightarrow> string \<Rightarrow> string \<Rightarrow> fs_error \<Rightarrow> file_data" where
  "singleFileError env fullPath rootDir err =
     \<lparr> name = path_basename env fullPath,
       path = normalizePath env fullPath,
       relativePath = safeRelativePath env rootDir fullPath,
       size_bytes = 0,
       isBinary = False,
       isSkipped = True,
       content = Some [],
       tokenCount = 0,
       error = Some (''Error: '' @ err_message err),
       fileType = None,
       excludedByDefault = Some (shouldExcludeByDefault env fullPath rootDir),
       extension = None,
       excluded = None \<rparr>"

definition processSingleFile ::
    "node_env \<Rightarrow> string \<Rightarrow> string \<Rightarrow> (string \<Rightarrow> bool) \<Rightarrow> file_data option" where
  "processSingleFile env fullPath0 rootDir0 ignoreFilter =
     (let fullPath = ensureAbsolutePath env fullPath0;
          rootDir = ensureAbsolutePath env rootDir0;
          rel = safeRelativePath env rootDir fullPath
      in if outsideRoot env rel then None
         else if ignoreFilter rel then None
         else
           (case fs_stat env fullPath of
              Inl err \<Rightarrow> Some (singleFileError env fullPath rootDir err)
            | Inr statSize \<Rightarrow>
                (let fileData =
                       \<lparr> name = path_basename env fullPath,
                         path = normalizePath env fullPath,
                         relativePath = rel,
                         size_bytes = statSize,
                         isBinary = False,
                         isSkipped = False,
                         content = Some [],
                         tokenCount = 0,
                         error = None,
                         fileType = None,
                         excludedByDefault = Some (shouldExcludeByDefault env fullPath rootDir),
                         extension = None,
                         excluded = None \<rparr>
                 in if statSize > MAX_FILE_SIZE
                    then Some (fileData\<lparr> isSkipped := True,
                                          error := Some ''File too large to process'' \<rparr>)
                    else
                      (let ext = toLowerCase env (drop 1 (path_extname env fullPath))
                       in if ext \<in> set (binaryExtensions env)
                          then Some (fileData\<lparr> isBinary := True,
                                                fileType := Some (toUpperCase env ext) \<rparr>)
                          else
                            (case fs_readFile env fullPath of
                               Inl err \<Rightarrow> Some (singleFileError env fullPath rootDir err)
                             | Inr text \<Rightarrow>
                                 Some (fileData\<lparr> content := Some text,
                                                   tokenCount := countTokens env text \<rparr>))))))"

section \<open>The state of the main process\<close>

text \<open>
  The module's global variables, the messages sent to the renderer so far (oldest first),
  and the events that reach the process while a handler is suspended.

  A handler gives up control only where it awaits a file-system call. \<open>fsCalls\<close> counts
  these calls. \<open>cancelIn\<close> is the schedule of the next cancel request (the
  \<open>cancel-directory-loading\<close> message, the Escape shortcut, or the safety timer):
  \<open>Some k\<close> says that the request is handled during the \<open>k\<close>-th await from now, counting
  from 0, and \<open>None\<close> that none is pending. \<open>windowUsable\<close> is the test
  \<open>window && window.webContents && !window.webContents.isDestroyed()\<close>.
\<close>

datatype ipc_message =
    FileProcessingStatus string string
  | FileListData "file_data list"
  | FileAdded file_data
  | FileUpdated file_data
  | FileRemoved string

record main_state =
  isLoadingDirectory :: bool
  loadingTimeoutId :: "nat option"
  currentWatcher :: "string option"
  sent :: "ipc_message list"
  windowUsable :: bool
  cancelIn :: "nat option"
  fsCalls :: nat

definition send :: "ipc_message \<Rightarrow> main_state \<Rightarrow> main_state" where
  "send m s = s\<lparr> sent := sent s @ [m] \<rparr>"

definition cancelledStatus :: ipc_message where
  "cancelledStatus = FileProcessingStatus ''cancelled'' ''Directory loading cancelled''"

definition cancelDirectoryLoading :: "main_state \<Rightarrow> main_state" where
  "cancelDirectoryLoading s =
     (if \<not> isLoadingDirectory s then s
      else
        (let s1 = s\<lparr> isLoadingDirectory := False, loadingTimeoutId := None \<rparr>
         in if windowUsable s1 then send cancelledStatus s1 else s1))"

definition setupDirectoryLoadingTimeout :: "main_state \<Rightarrow> main_state" where
  "setupDirectoryLoadingTimeout s = s\<lparr> loadingTimeoutId := Some MAX_DIRECTORY_LOAD_TIME \<rparr>"

text \<open>
  A suspension of the running handler: a cancel request whose turn has come is handled by
  \<open>cancelDirectoryLoading\<close> before the handler resumes. \<open>awaitFs\<close> is the suspension at an
  awaited file-system call, which is counted.
\<close>

definition suspend :: "main_state \<Rightarrow> main_state" where
  "suspend s =
     (case cancelIn s of
        None \<Rightarrow> s
      | Some 0 \<Rightarrow> cancelDirectoryLoading (s\<lparr> cancelIn := None \<rparr>)
      | Some (Suc k) \<Rightarrow> s\<lparr> cancelIn := Some k \<rparr>)"

definition awaitFs :: "main_state \<Rightarrow> main_state" where
  "awaitFs s = suspend (s\<lparr> fsCalls := fsCalls s + 1 \<rparr>)"

section \<open>The scanner\<close>

text \<open>The record of the per-file \<open>catch\<close> block of the scanner. It sets no \<open>content\<close>.\<close>

definition chunkFileError :: "node_env \<Rightarrow> string \<Rightarrow> string \<Rightarrow> string \<Rightarrow> fs_error \<Rightarrow> file_data" where
  "chunkFileError env direntName fullPath rel err =
     \<lparr> name = direntName,
       path = normalizePath env fullPath,
       relativePath = rel,
       size_bytes = 0,
       isBinary = False,
       isSkipped = True,
       content = None,
       tokenCount = 0,
       error = Some (if err_code err = ''EPERM'' then ''Permission denied''
                     else if err_code err = ''ENOENT'' then ''File not found''
                     else ''Could not read file''),
       fileType = None,
       excludedByDefault = None,
       extension = None,
       excluded = None \<rparr>"

text \<open>
  One task of a chunk, for the directory entry \<open>direntName\<close> of \<open>dir\<close>. The task reads the
  flag \<open>isLoadingDirectory\<close> when it starts, after \<open>stat\<close> and after \<open>readFile\<close>.
\<close>

definition processChunkFile ::
    "node_env \<Rightarrow> string \<Rightarrow> string \<Rightarrow> (string \<Rightarrow> bool) \<Rightarrow> string \<Rightarrow> main_state
      \<Rightarrow> file_data option \<times> main_state" where
  "processChunkFile env dir rootDir ignoreFilter direntName s =
     (if \<not> isLoadingDirectory s then (None, s)
      else
        (let fullPath = safePathJoin env dir direntName;
             rel = safeRelativePath env rootDir fullPath
         in if isAppBundle fullPath \<or> fullPath = appPath env \<or> outsideRoot env rel
            then (None, s)
            else if ignoreFilter rel then (None, s)
            else
              (let s1 = awaitFs s
               in case fs_stat env fullPath of
                    Inl err \<Rightarrow> (Some (chunkFileError env direntName fullPath rel err), s1)
                  | Inr statSize \<Rightarrow>
                      if \<not> isLoadingDirectory s1 then (None, s1)
                      else if statSize > MAX_FILE_SIZE then
                        (Some \<lparr> name = direntName,
                                path = normalizePath env fullPath,
                                relativePath = rel,
                                size_bytes = statSize,
                                isBinary = False,
                                isSkipped = True,
                                content = Some [],
                                tokenCount = 0,
                                error = Some ''File too large to process'',
                                fileType = None,
                                excludedByDefault = None,
                                extension = None,
                                excluded = None \<rparr>, s1)
                      else if isBinaryFile env fullPath then
                        (Some \<lparr> name = direntName,
                                path = normalizePath env fullPath,
                                relativePath = rel,
                                size_bytes = statSize,
                                isBinary = True,
                                isSkipped = False,
                                content = Some [],
                                tokenCount = 0,
                                error = None,
                                fileType = Some (toUpperCase env
                                                   (drop 1 (path_extname env fullPath))),
                                excludedByDefault = None,
                                extension = None,
                                excluded = None \<rparr>, s1)
                      else
                        (let s2 = awaitFs s1
                         in case fs_readFile env fullPath of
                              Inl err \<Rightarrow>
                                (Some (chunkFileError env direntName fullPath rel err), s2)
                            | Inr fileContent \<Rightarrow>
                                if \<not> isLoadingDirectory s2 then (None, s2)
                                else
                                  (Some \<lparr> name = direntName,
                                          path = normalizePath env fullPath,
                                          relativePath = rel,
                                          size_bytes = statSize,
                                          isBinary = False,
                                          isSkipped = False,
                                          content = Some fileContent,
                                          tokenCount = countTokens env fileContent,
                                          error = None,
                                          fileType = None,
                                          excludedByDefault = None,
                                          extension = None,
                                          excluded = None \<rparr>, s2)))))"

text \<open>
  \<open>await Promise.all(chunk.map(...))\<close>. The tasks of a chunk suspend only at their own
  file-system calls; the model runs them one after the other. What the walk does with a
  chunk does not depend on the interleaving: the results are kept only if the flag is
  still set when all tasks have finished.
\<close>

fun runChunk ::
    "node_env \<Rightarrow> string \<Rightarrow> string \<Rightarrow> (string \<Rightarrow> bool) \<Rightarrow> string list \<Rightarrow> main_state
      \<Rightarrow> file_data option list \<times> main_state" where
  "runChunk env dir rootDir ignoreFilter [] s = ([], s)"
| "runChunk env dir rootDir ignoreFilter (direntName # rest) s =
     (case processChunkFile env dir rootDir ignoreFilter direntName s of
        (r, s1) \<Rightarrow>
          (case runChunk env dir rootDir ignoreFilter rest s1 of
             (rs, s2) \<Rightarrow> (r # rs, s2)))"

definition processingStatus :: "nat \<Rightarrow> nat \<Rightarrow> ipc_message" where
  "processingStatus processedFiles totalFiles =
     FileProcessingStatus ''processing''
       (''Processing files... '' @ showNat processedFiles @ ''/'' @ showNat totalFiles @
        '' (Press ESC to cancel)'')"

definition scanningStatus :: ipc_message where
  "scanningStatus =
     FileProcessingStatus ''processing'' ''Scanning directories... (Press ESC to cancel)''"

text \<open>
  The loop \<open>for (let i = 0; i < files.length; i += CHUNK_SIZE)\<close> over the names of the
  files of one directory; \<open>results\<close> and \<open>processedFiles\<close> are the loop's variables.
\<close>

function processChunks ::
    "node_env \<Rightarrow> string \<Rightarrow> string \<Rightarrow> (string \<Rightarrow> bool) \<Rightarrow> string list \<Rightarrow> nat \<Rightarrow> nat
      \<Rightarrow> file_data list \<Rightarrow> main_state \<Rightarrow> file_data list \<times> main_state" where
  "processChunks env dir rootDir ignoreFilter files i processedFiles results s =
     (if i < length files then
        (if \<not> isLoadingDirectory s then (results, s)
         else
           (let chunk = take CHUNK_SIZE (drop i files)
            in case runChunk env dir rootDir ignoreFilter chunk s of
                 (chunkResults, s1) \<Rightarrow>
                   if \<not> isLoadingDirectory s1 then (results, s1)
                   else
                     processChunks env dir rootDir ignoreFilter files (i + CHUNK_SIZE)
                       (processedFiles + length chunk)
                       (results @ List.map_filter (\<lambda>r. r) chunkResults)
                       (send (processingStatus (processedFiles + length chunk) (length files))
                          s1)))
      else (results, s))"
  by pat_completeness auto
termination
  by (relation "measure (\<lambda>(env, dir, rootDir, ignoreFilter, files, i, rest). length files - i)")
     (auto simp: CHUNK_SIZE_def)

declare processChunks.simps [simp del]

text \<open>
  The directory tree as \<open>readdir\<close> reports it: \<open>Dir entries\<close> is a directory whose
  \<open>readdir\<close> returns the entries (name and kind, in the order of enumeration);
  \<open>NoDir err\<close> is a directory whose \<open>readdir\<close> fails; \<open>File\<close> is a regular file and
  \<open>Other\<close> an entry that is neither a file nor a directory.
\<close>

datatype dtree = File | Other | Dir "(string \<times> dtree) list" | NoDir fs_error

fun isDirectory :: "string \<times> dtree \<Rightarrow> bool" where
  "isDirectory (nm, Dir entries) = True"
| "isDirectory (nm, NoDir err) = True"
| "isDirectory (nm, t) = False"

fun isFile :: "string \<times> dtree \<Rightarrow> bool" where
  "isFile (nm, File) = True"
| "isFile (nm, t) = False"

lemma size_list_filter_le: "size_list f (filter p xs) \<le> size_list f xs"
  by (induction xs) auto

text \<open>
  \<open>readFilesRecursively env tree dir rootDir ignoreFilter\<close>, where \<open>tree\<close> is what the file
  system holds at \<open>dir\<close>. A failing \<open>readdir\<close> ends in the outer \<open>catch\<close>, which returns
  the results gathered so far (none). \<open>processDirectories\<close> is the loop over the
  subdirectories; its first result says whether the loop left the function by
  \<open>return results\<close>.
\<close>

function readFilesRecursively ::
    "node_env \<Rightarrow> dtree \<Rightarrow> string \<Rightarrow> string \<Rightarrow> (string \<Rightarrow> bool) option \<Rightarrow> main_state
      \<Rightarrow> file_data list \<times> main_state"
  and processDirectories ::
    "node_env \<Rightarrow> (string \<times> dtree) list \<Rightarrow> string \<Rightarrow> string \<Rightarrow> (string \<Rightarrow> bool)
      \<Rightarrow> file_data list \<Rightarrow> main_state \<Rightarrow> (bool \<times> file_data list) \<times> main_state" where
  "readFilesRecursively env tree dir0 rootDir0 ignoreFilter0 s =
     (if \<not> isLoadingDirectory s then ([], s)
      else
        (let dir = ensureAbsolutePath env dir0;
             rootDir = ensureAbsolutePath env (if rootDir0 = [] then dir else rootDir0);
             ignoreFilter = (case ignoreFilter0 of
                               Some f \<Rightarrow> f
                             | None \<Rightarrow> loadGitignore env rootDir);
             s1 = awaitFs s
         in case tree of
              Dir dirents \<Rightarrow>
                if \<not> isLoadingDirectory s1 then ([], s1)
                else
                  (case processDirectories env (filter isDirectory dirents) dir rootDir
                          ignoreFilter [] s1 of
                     ((returned, results), s2) \<Rightarrow>
                       if returned then (results, s2)
                       else processChunks env dir rootDir ignoreFilter
                              (map fst (filter isFile dirents)) 0 0 results s2)
            | _ \<Rightarrow> ([], s1)))"
| "processDirectories env [] dir rootDir ignoreFilter results s = ((False, results), s)"
| "processDirectories env ((direntName, subtree) # rest) dir rootDir ignoreFilter results s =
     (if \<not> isLoadingDirectory s then ((True, results), s)
      else
        (let fullPath = safePathJoin env dir direntName;
             rel = safeRelativePath env rootDir fullPath
         in if isAppBundle fullPath \<or> fullPath = appPath env \<or> outsideRoot env rel
            then processDirectories env rest dir rootDir ignoreFilter results s
            else if \<not> ignoreFilter rel then
              (case readFilesRecursively env subtree fullPath rootDir (Some ignoreFilter) s of
                 (subResults, s1) \<Rightarrow>
                   if \<not> isLoadingDirectory s1 then ((True, results), s1)
                   else processDirectories env rest dir rootDir ignoreFilter
                          (results @ subResults) (send scanningStatus s1))
            else processDirectories env rest dir rootDir ignoreFilter results
                   (send scanningStatus s)))"
  by pat_completeness auto
termination
proof (relation "measure (\<lambda>x. case x of
          Inl (env, tree, rest) \<Rightarrow> 2 * size tree
        | Inr (env, dirents, rest) \<Rightarrow> 2 * size_list (\<lambda>p. size (snd p)) dirents + 1)",
       goal_cases)
  case 1
  show ?case by simp
next
  case (2 env tree dir0 rootDir0 ignoreFilter0 s x xa xb xc dirents)
  have "size_list (\<lambda>p. size (snd p)) (filter isDirectory dirents)
          \<le> size_list (\<lambda>p. size (snd p)) dirents"
    by (rule size_list_filter_le)
  also have "\<dots> \<le> size_list (size_prod (\<lambda>x. 0) size) dirents"
    by (rule size_list_pointwise) (auto simp: size_prod_simp)
  finally show ?case using 2 by simp
qed simp_all

declare readFilesRecursively.simps [simp del] processDirectories.simps [simp del]

section \<open>The request-file-list handler\<close>

definition busyStatus :: ipc_message where
  "busyStatus =
     FileProcessingStatus ''busy'' ''Already processing another directory. Please wait.''"

definition startStatus :: ipc_message where
  "startStatus =
     FileProcessingStatus ''processing''
       ''Scanning directory structure... (Press ESC to cancel)''"

definition completeStatus :: "nat \<Rightarrow> ipc_message" where
  "completeStatus n = FileProcessingStatus ''complete'' (''Found '' @ showNat n @ '' files'')"

text \<open>\<open>if (currentWatcher) { await currentWatcher.close(); currentWatcher = null; }\<close>\<close>

definition closeWatcher :: "main_state \<Rightarrow> main_state" where
  "closeWatcher s =
     (case currentWatcher s of
        None \<Rightarrow> s
      | Some w \<Rightarrow> (suspend s)\<lparr> currentWatcher := None \<rparr>)"

text \<open>
  One element of \<open>serializedFiles\<close>. (Its \<open>isDirectory\<close> is copied from a property that no
  record has, and is left out.)
\<close>

definition serializeFile :: "node_env \<Rightarrow> string \<Rightarrow> file_data \<Rightarrow> file_data" where
  "serializeFile env folderPath file =
     \<lparr> name = name file,
       path = path file,
       relativePath = relativePath file,
       size_bytes = size_bytes file,
       isBinary = isBinary file,
       isSkipped = isSkipped file,
       content = content file,
       tokenCount = tokenCount file,
       error = error file,
       fileType = None,
       excludedByDefault = None,
       extension = Some (toLowerCase env (path_extname env (name file))),
       excluded = Some (shouldExcludeByDefault env (path file) folderPath) \<rparr>"

text \<open>The \<open>finally\<close> block of the handler.\<close>

definition finallyReset :: "main_state \<Rightarrow> main_state" where
  "finallyReset s = s\<lparr> isLoadingDirectory := False, loadingTimeoutId := None \<rparr>"

text \<open>
  The handler of \<open>request-file-list\<close> for \<open>folderPath\<close>, where \<open>tree\<close> is what the file
  system holds there. The busy branch returns before the \<open>try\<close> statement, so the
  \<open>finally\<close> block does not run for it. The calls inside the \<open>try\<close> block are modelled as
  not throwing, so the handler's own \<open>catch\<close> block has no branch here.
\<close>

definition requestFileList :: "node_env \<Rightarrow> dtree \<Rightarrow> string \<Rightarrow> main_state \<Rightarrow> main_state" where
  "requestFileList env tree folderPath s =
     (if isLoadingDirectory s then
        (let s1 = closeWatcher s
         in if windowUsable s1 then send busyStatus s1 else s1)
      else
        (let s1 = closeWatcher s;
             s2 = s1\<lparr> isLoadingDirectory := True \<rparr>;
             s3 = setupDirectoryLoadingTimeout s2;
             s4 = send startStatus s3;
             rootDir = ensureAbsolutePath env folderPath;
             ignoreFilter = loadGitignore env rootDir
         in case readFilesRecursively env tree rootDir rootDir (Some ignoreFilter) s4 of
              (files, s5) \<Rightarrow>
                if \<not> isLoadingDirectory s5 then finallyReset s5
                else
                  (let s6 = s5\<lparr> loadingTimeoutId := None, isLoadingDirectory := False \<rparr>;
                       s7 = send (completeStatus (length files)) s6;
                       s8 = send (FileListData (map (serializeFile env folderPath) files)) s7;
                       s9 = (if chokidarLoaded env then s8\<lparr> currentWatcher := Some rootDir \<rparr>
                             else s8)
                   in finallyReset s9)))"

section \<open>The watcher\<close>

datatype chokidar_event = Add string | Change string | Unlink string

fun eventPath :: "chokidar_event \<Rightarrow> string" where
  "eventPath (Add p) = p"
| "eventPath (Change p) = p"
| "eventPath (Unlink p) = p"

text \<open>The \<open>ignored\<close> predicate given to \<open>chokidar.watch\<close>.\<close>

definition watcherIgnored :: "node_env \<Rightarrow> string \<Rightarrow> (string \<Rightarrow> bool) \<Rightarrow> string \<Rightarrow> bool" where
  "watcherIgnored env rootDir ignoreFilter filePath =
     (let absolutePath = ensureAbsolutePath env filePath;
          relative = safeRelativePath env rootDir absolutePath
      in if relative = [] then False
         else
           (let isInvalidOrOutside = outsideRoot env relative;
                isIgnoredByRules = (if \<not> isInvalidOrOutside then ignoreFilter relative
                                    else False)
            in isInvalidOrOutside \<or> isIgnoredByRules))"

text \<open>The handlers of the \<open>add\<close>, \<open>change\<close> and \<open>unlink\<close> events: the messages they send.\<close>

fun watcherHandler ::
    "node_env \<Rightarrow> string \<Rightarrow> (string \<Rightarrow> bool) \<Rightarrow> chokidar_event \<Rightarrow> ipc_message list" where
  "watcherHandler env rootDir ignoreFilter (Add filePath) =
     (case processSingleFile env (normalizePath env filePath) rootDir ignoreFilter of
        Some fileData \<Rightarrow> [FileAdded fileData]
      | None \<Rightarrow> [])"
| "watcherHandler env rootDir ignoreFilter (Change filePath) =
     (case processSingleFile env (normalizePath env filePath) rootDir ignoreFilter of
        Some fileData \<Rightarrow> [FileUpdated fileData]
      | None \<Rightarrow> [])"
| "watcherHandler env rootDir ignoreFilter (Unlink filePath) =
     [FileRemoved (normalizePath env filePath)]"

text \<open>
  A change on disk as the armed watcher treats it: chokidar raises no event for a path
  that its \<open>ignored\<close> predicate rejects, and calls the handler otherwise.
\<close>

definition watcherEvent ::
    "node_env \<Rightarrow> string \<Rightarrow> (string \<Rightarrow> bool) \<Rightarrow> chokidar_event \<Rightarrow> ipc_message list" where
  "watcherEvent env rootDir ignoreFilter ev =
     (if watcherIgnored env rootDir ignoreFilter (eventPath ev) then []
      else watcherHandler env rootDir ignoreFilter ev)"

section \<open>Runs of the scanner\<close>

text \<open>
  The steps by which the walk changes the state: while \<open>isLoadingDirectory\<close> is set it
  awaits a file-system call or sends a progress message. \<open>reach s s'\<close> says that \<open>s'\<close>
  comes from \<open>s\<close> by such steps.
\<close>

inductive reach :: "main_state \<Rightarrow> main_state \<Rightarrow> bool" where
  reach_refl: "reach s s"
| reach_await: "reach s s' \<Longrightarrow> isLoadingDirectory s' \<Longrightarrow> reach s (awaitFs s')"
| reach_send: "reach s s' \<Longrightarrow> isLoadingDirectory s' \<Longrightarrow>
     reach s (send (FileProcessingStatus ''processing'' b) s')"

fun isStatus :: "ipc_message \<Rightarrow> bool" where
  "isStatus (FileProcessingStatus st msg) = True"
| "isStatus m = False"


text \<open>The messages sent between the states \<open>s\<close> and \<open>s'\<close> of one run.\<close>

definition newMessages :: "main_state \<Rightarrow> main_state \<Rightarrow> ipc_message list" where
  "newMessages s s' = drop (length (sent s)) (sent s')"


text \<open>
  What a message may say about files if no ignored path is to be reported by a scan: a
  status message says nothing about files, and a \<open>file-list-data\<close> message lists records
  whose \<open>relativePath\<close> the ignore rules do not match.
\<close>

fun listsNoIgnored :: "(string \<Rightarrow> bool) \<Rightarrow> ipc_message \<Rightarrow> bool" where
  "listsNoIgnored ig (FileListData fs) = list_all (\<lambda>f. \<not> ig (relativePath f)) fs"
| "listsNoIgnored ig (FileProcessingStatus st msg) = True"
| "listsNoIgnored ig m = False"

section \<open>A POSIX instance of the environment\<close>

text \<open>
  Node's \<open>path\<close> module for POSIX paths, and a file system given as a table from paths to
  the size \<open>stat\<close> reports and the result of \<open>readFile\<close>. The general theorems hold for
  every environment; this instance is the one concrete inputs are evaluated in.
\<close>

definition posix_isAbsolute :: "string \<Rightarrow> bool" where
  "posix_isAbsolute p = (case p of [] \<Rightarrow> False | c # _ \<Rightarrow> c = CHR ''/'')"

fun joinSegments :: "string list \<Rightarrow> string" where
  "joinSegments [] = []"
| "joinSegments [x] = x"
| "joinSegments (x # y # zs) = x @ ''/'' @ joinSegments (y # zs)"

text \<open>
  Resolution of \<open>.\<close> and \<open>..\<close>: \<open>acc\<close> holds the segments kept so far, last first;
  \<open>keepUp\<close> says whether a leading \<open>..\<close> is kept (a relative path) or dropped.
\<close>

fun normalizeSegments :: "bool \<Rightarrow> string list \<Rightarrow> string list \<Rightarrow> string list" where
  "normalizeSegments keepUp acc [] = rev acc"
| "normalizeSegments keepUp acc (seg # rest) =
     (if seg = [] \<or> seg = ''.'' then normalizeSegments keepUp acc rest
      else if seg = ''..'' then
        (case acc of
           [] \<Rightarrow> normalizeSegments keepUp (if keepUp then [''..''] else []) rest
         | a # acc' \<Rightarrow>
             if a = ''..'' then normalizeSegments keepUp (''..'' # acc) rest
             else normalizeSegments keepUp acc' rest)
      else normalizeSegments keepUp (seg # acc) rest)"

definition posix_normalize :: "string \<Rightarrow> string" where
  "posix_normalize p =
     (if p = [] then ''.''
      else
        (let isAbs = posix_isAbsolute p;
             trailing = (last p = CHR ''/'');
             body = joinSegments (normalizeSegments (\<not> isAbs) [] (splitOn (CHR ''/'') p));
             body1 = (if body = [] \<and> \<not> isAbs then ''.'' else body);
             body2 = (if body1 \<noteq> [] \<and> trailing then body1 @ ''/'' else body1)
         in if isAbs then CHR ''/'' # body2 else body2))"

definition posix_join :: "string \<Rightarrow> string \<Rightarrow> string" where
  "posix_join a b =
     (let parts = filter (\<lambda>x. x \<noteq> []) [a, b]
      in if parts = [] then ''.'' else posix_normalize (joinSegments parts))"

definition resolvedSegments :: "string \<Rightarrow> string \<Rightarrow> string list" where
  "resolvedSegments cwd p =
     normalizeSegments False []
       (splitOn (CHR ''/'') (if posix_isAbsolute p then p else cwd @ ''/'' @ p))"

definition posix_resolve :: "string \<Rightarrow> string \<Rightarrow> string" where
  "posix_resolve cwd p = CHR ''/'' # joinSegments (resolvedSegments cwd p)"

fun dropCommon :: "string list \<Rightarrow> string list \<Rightarrow> string list \<times> string list" where
  "dropCommon (x # xs) (y # ys) = (if x = y then dropCommon xs ys else (x # xs, y # ys))"
| "dropCommon xs ys = (xs, ys)"

definition posix_relative :: "string \<Rightarrow> string \<Rightarrow> string \<Rightarrow> string" where
  "posix_relative cwd from0 to0 =
     (case dropCommon (resolvedSegments cwd from0) (resolvedSegments cwd to0) of
        (fromRest, toRest) \<Rightarrow> joinSegments (replicate (length fromRest) ''..'' @ toRest))"

definition posix_basename :: "string \<Rightarrow> string" where
  "posix_basename p =
     rev (takeWhile (\<lambda>c. c \<noteq> CHR ''/'') (dropWhile (\<lambda>c. c = CHR ''/'') (rev p)))"

definition posix_extname :: "string \<Rightarrow> string" where
  "posix_extname p =
     (let b = posix_basename p;
          r = takeWhile (\<lambda>c. c \<noteq> CHR ''.'') (rev b)
      in if length r = length b then []
         else if length r + 1 = length b then []
         else if b = ''..'' then []
         else drop (length b - length r - 1) b)"

type_synonym disk = "(string \<times> nat \<times> (fs_error + string)) list"

text \<open>
  The error of Node for a missing file: the code \<open>ENOENT\<close> and a message that names the
  system call and quotes the path.
\<close>

definition enoent :: "string \<Rightarrow> string \<Rightarrow> fs_error" where
  "enoent syscall p =
     FsError ''ENOENT''
       (''ENOENT: no such file or directory, '' @ syscall @ '' '' @ [CHR 0x27] @ p @ [CHR 0x27])"

definition statOf :: "disk \<Rightarrow> string \<Rightarrow> fs_error + nat" where
  "statOf d p =
     (case map_of d p of Some (n, r) \<Rightarrow> Inr n | None \<Rightarrow> Inl (enoent ''stat'' p))"

definition readOf :: "disk \<Rightarrow> string \<Rightarrow> fs_error + string" where
  "readOf d p =
     (case map_of d p of Some (n, r) \<Rightarrow> r | None \<Rightarrow> Inl (enoent ''open'' p))"

definition posix_env :: "string list \<Rightarrow> disk \<Rightarrow> node_env" where
  "posix_env exts d =
     \<lparr> platform = Linux,
       toLowerCase = asciiLower,
       toUpperCase = asciiUpper,
       binaryExtensions = exts,
       excludedIgnores = (\<lambda>rel. rel = ''package-lock.json''),
       encoder = None,
       chokidarLoaded = True,
       appPath = ''/opt/PasteMax/resources/app'',
       loadGitignore = (\<lambda>root rel. startsWith rel ''node_modules''),
       path_isAbsolute = posix_isAbsolute,
       path_resolve = posix_resolve ''/home/user'',
       path_join = posix_join,
       path_relative = posix_relative ''/home/user'',
       path_basename = posix_basename,
       path_extname = posix_extname,
       path_parse_ok = (\<lambda>p. True),
       fs_stat = statOf d,
       fs_readFile = readOf d \<rparr>"

text \<open>A small project directory \<open>/r\<close> used for concrete runs.\<close>

definition demo_disk :: disk where
  "demo_disk =
     [(''/r/a.txt'', 2, Inr ''hi''),
      (''/r/logo.png'', 3, Inr ''PNG''),
      (''/r/big.png'', 5242881, Inr ''...''),
      (''/r/locked.txt'', 7, Inl (FsError ''EPERM'' ''EPERM: operation not permitted'')),
      (''/r/sub/x.txt'', 4, Inr ''text''),
      (''/r/Tool.app/x.txt'', 4, Inr ''text''),
      (''/r/node_modules/m.js'', 4, Inr ''code'')]"

definition idle_state :: main_state where
  "idle_state =
     \<lparr> isLoadingDirectory = False, loadingTimeoutId = None, currentWatcher = None,
       sent = [], windowUsable = True, cancelIn = None, fsCalls = 0 \<rparr>"

definition scanning_state :: main_state where
  "scanning_state = idle_state\<lparr> isLoadingDirectory := True,
                                   loadingTimeoutId := Some MAX_DIRECTORY_LOAD_TIME \<rparr>"

definition demo_env :: node_env where
  "demo_env = posix_env [''.png'', ''.jpg''] demo_disk"

definition demo_ignore :: "string \<Rightarrow> bool" where
  "demo_ignore = loadGitignore demo_env ''/r''"

definition demo_tokenizer :: tokenizer where
  "demo_tokenizer = \<lparr> merges = [((104, 105), 256)], specialTokens = [''<|endofprompt|>''] \<rparr>"

text \<open>
  The directory tree of \<open>/r\<close> as the walk of a concrete run reads it, the states of such
  a run, and the record of a text file read without error.
\<close>

definition demo_tree :: dtree where
  "demo_tree =
     Dir [(''node_modules'', Dir [(''m.js'', File)]),
          (''sub'', Dir [(''x.txt'', File)]),
          (''a.txt'', File)]"

definition run_state ::
    "bool \<Rightarrow> string option \<Rightarrow> ipc_message list \<Rightarrow> nat option \<Rightarrow> nat \<Rightarrow> main_state" where
  "run_state loading watcher msgs cancel calls =
     \<lparr> isLoadingDirectory = loading,
       loadingTimeoutId = (if loading then Some MAX_DIRECTORY_LOAD_TIME else None),
       currentWatcher = watcher, sent = msgs, windowUsable = True,
       cancelIn = cancel, fsCalls = calls \<rparr>"

definition demo_record :: "string \<Rightarrow> string \<Rightarrow> string \<Rightarrow> nat \<Rightarrow> string \<Rightarrow> file_data" where
  "demo_record nm p rel sz text =
     \<lparr> name = nm, path = p, relativePath = rel, size_bytes = sz, isBinary = False,
       isSkipped = False, content = Some text, tokenCount = 1, error = None,
       fileType = None, excludedByDefault = None, extension = None, excluded = None \<rparr>"

section \<open>The content formatter\<close>

text \<open>
  \<open>formatContentForCopying\<close> of the renderer. Its helpers \<open>normalizePath\<close>, \<open>basename\<close>,
  \<open>isSubPath\<close> and \<open>generateAsciiFileTree\<close> (of \<open>pathUtils\<close>) and
  \<open>getLanguageFromFilename\<close> (of \<open>languageUtils\<close>) are functions of their arguments
  that the formatter only calls; they are parameters here, as is
  \<open>String.prototype.localeCompare\<close>, whose result depends on the locale of the host.
\<close>

record format_env =
  utilsNormalizePath :: "string \<Rightarrow> string"
  basename :: "string \<Rightarrow> string"
  isSubPath :: "string \<Rightarrow> string \<Rightarrow> bool"
  generateAsciiFileTree :: "file_data list \<Rightarrow> string \<Rightarrow> string"
  getLanguageFromFilename :: "string \<Rightarrow> string"
  localeCompare :: "string \<Rightarrow> string \<Rightarrow> int"

definition newline :: string where
  "newline = [CHR 0x0A]"

definition getRelativePath :: "format_env \<Rightarrow> string \<Rightarrow> string \<Rightarrow> string" where
  "getRelativePath env selectedFolder filePath =
     (let normalizedFolder = utilsNormalizePath env selectedFolder;
          normalizedFile = utilsNormalizePath env filePath
      in if startsWith normalizedFile normalizedFolder
         then dropWhile (\<lambda>c. c = CHR ''/'') (drop (length normalizedFolder) normalizedFile)
         else filePath)"

definition getFilesInFolder :: "format_env \<Rightarrow> file_data list \<Rightarrow> string \<Rightarrow> file_data list" where
  "getFilesInFolder env files folderPath =
     (let normalizedFolderPath = utilsNormalizePath env folderPath
      in filter (\<lambda>file. isSubPath env normalizedFolderPath (utilsNormalizePath env (path file)))
           files)"

text \<open>
  The comparator given to \<open>sort\<close>. \<open>sortOrder.split("-")\<close> always has a first element;
  \<open>sortDir\<close> is \<open>undefined\<close> when there is no second one.
\<close>

definition compareFiles :: "format_env \<Rightarrow> string \<Rightarrow> file_data \<Rightarrow> file_data \<Rightarrow> int" where
  "compareFiles env sortOrder a b =
     (let parts = splitOn (CHR ''-'') sortOrder;
          sortKey = hd parts;
          sortDir = (if 1 < length parts then Some (parts ! 1) else None);
          comparison =
            (if sortKey = ''name'' then localeCompare env (name a) (name b)
             else if sortKey = ''tokens'' then int (tokenCount a) - int (tokenCount b)
             else if sortKey = ''size'' then int (size_bytes a) - int (size_bytes b)
             else 0)
      in if sortDir = Some ''asc'' then comparison else - comparison)"

text \<open>
  \<open>Array.prototype.sort\<close> is specified by its result, not by an algorithm: the result is
  a permutation of the array; if the comparator is consistent, it is in ascending order
  of the comparator; and the sort is stable, that is, elements that compare equal keep
  their order. \<open>sortResult cmp xs ys\<close> says that \<open>ys\<close> is such a result for \<open>xs\<close>.
\<close>

definition sortResult :: "('a \<Rightarrow> 'a \<Rightarrow> int) \<Rightarrow> 'a list \<Rightarrow> 'a list \<Rightarrow> bool" where
  "sortResult cmp xs ys =
     ((\<forall>a\<in>set xs \<union> set ys. count_list ys a = count_list xs a) \<and>
      sorted_wrt (\<lambda>a b. cmp a b \<le> 0) ys \<and>
      (\<forall>a\<in>set xs \<union> set ys. filter (\<lambda>b. cmp a b = 0) ys = filter (\<lambda>b. cmp a b = 0) xs))"

text \<open>
  A consistent comparator in the sense of the language specification: every value equals
  itself, \<open>a\<close> is below \<open>b\<close> exactly if \<open>b\<close> is above \<open>a\<close>, and the order is transitive.
\<close>

definition consistentComparator :: "('a \<Rightarrow> 'a \<Rightarrow> int) \<Rightarrow> bool" where
  "consistentComparator cmp =
     ((\<forall>a. cmp a a = 0) \<and> (\<forall>a b. cmp a b < 0 \<longleftrightarrow> 0 < cmp b a) \<and>
      (\<forall>a b c. cmp a b \<le> 0 \<and> cmp b c \<le> 0 \<longrightarrow> cmp a c \<le> 0))"

text \<open>The stable sort by insertion: one algorithm that computes such a result.\<close>

fun insertBy :: "('a \<Rightarrow> 'a \<Rightarrow> int) \<Rightarrow> 'a \<Rightarrow> 'a list \<Rightarrow> 'a list" where
  "insertBy cmp x [] = [x]"
| "insertBy cmp x (y # ys) = (if cmp x y \<le> 0 then x # y # ys else y # insertBy cmp x ys)"

fun sortBy :: "('a \<Rightarrow> 'a \<Rightarrow> int) \<Rightarrow> 'a list \<Rightarrow> 'a list" where
  "sortBy cmp [] = []"
| "sortBy cmp (x # xs) = insertBy cmp x (sortBy cmp xs)"

text \<open>The block of one file inside \<open><CODEBASE>\<close>.\<close>

definition fileBlock :: "format_env \<Rightarrow> string option \<Rightarrow> file_data \<Rightarrow> string" where
  "fileBlock env selectedFolder file =
     (let language = getLanguageFromFilename env (name file);
          normalizedPath = utilsNormalizePath env (path file);
          relativePath = (case selectedFolder of
                            None \<Rightarrow> []
                          | Some folder \<Rightarrow>
                              if folder = [] then []
                              else getRelativePath env folder (path file));
          folderName = (case selectedFolder of
                          None \<Rightarrow> []
                        | Some folder \<Rightarrow> if folder = [] then [] else basename env folder);
          pathInfo = (if relativePath \<noteq> [] \<and> relativePath \<noteq> path file
                      then ''File: '' @ folderName @ ''/'' @ relativePath
                      else ''File: '' @ normalizedPath);
          fileContent = (case content file of None \<Rightarrow> ''undefined'' | Some text \<Rightarrow> text)
      in pathInfo @ newline @ ''```'' @ language @ newline @ fileContent @ newline @
         ''```'' @ newline @ newline)"

text \<open>
  The body of \<open>formatContentForCopying\<close> from the test of \<open>sortedSelected.length\<close> on,
  as a function of the sorted selection.
\<close>

definition assembleContent ::
    "format_env \<Rightarrow> file_data list \<Rightarrow> file_data list \<Rightarrow> bool \<Rightarrow> string option \<Rightarrow> string
      \<Rightarrow> string" where
  "assembleContent env files sortedSelected includeFileTree selectedFolder userInstructions =
     (if sortedSelected = [] then ''No files selected.''
      else
        (let tree = (case selectedFolder of
                       None \<Rightarrow> []
                     | Some folder \<Rightarrow>
                         if includeFileTree \<and> folder \<noteq> [] then
                           ''<FILE STRUCTURE>'' @ newline @ utilsNormalizePath env folder @
                           newline @
                           generateAsciiFileTree env (getFilesInFolder env files folder) folder @
                           newline @ ''</FILE STRUCTURE>'' @ newline @ newline
                         else []);
             blocks = concat (map (fileBlock env selectedFolder) sortedSelected);
             instructions = (if trim userInstructions \<noteq> [] then
                               ''<user_instructions>'' @ newline @ trim userInstructions @
                               newline @ ''</user_instructions>''
                             else [])
         in tree @ ''<CODEBASE>'' @ newline @ blocks @ ''</CODEBASE>'' @ newline @ newline @
            instructions))"

definition formatContentForCopying ::
    "format_env \<Rightarrow> file_data list \<Rightarrow> string list \<Rightarrow> string \<Rightarrow> bool \<Rightarrow> string option \<Rightarrow> string
      \<Rightarrow> string" where
  "formatContentForCopying env files selectedFiles sortOrder includeFileTree selectedFolder
       userInstructions =
     assembleContent env files
       (sortBy (compareFiles env sortOrder)
          (filter (\<lambda>file. path file \<in> set selectedFiles) files))
       includeFileTree selectedFolder userInstructions"

text \<open>A comparison of strings by their code units, for the concrete instance.\<close>

fun codeUnitCompare :: "string \<Rightarrow> string \<Rightarrow> int" where
  "codeUnitCompare [] [] = 0"
| "codeUnitCompare [] (d # ds) = - 1"
| "codeUnitCompare (c # cs) [] = 1"
| "codeUnitCompare (c # cs) (d # ds) =
     (if c = d then codeUnitCompare cs ds
      else if (of_char c :: nat) < of_char d then - 1 else 1)"

text \<open>
  An instance of the helpers for concrete runs: paths are normalised by turning backslashes
  into slashes, a path lies under a folder if it starts with the folder and a slash, the
  tree lists the names of the files line by line, and the language is the extension.
\<close>

definition demo_format_env :: format_env where
  "demo_format_env =
     \<lparr> utilsNormalizePath = replaceBackslashes,
       basename = posix_basename,
       isSubPath = (\<lambda>parent child. startsWith child (parent @ ''/'')),
       generateAsciiFileTree = (\<lambda>files folder. concat (map (\<lambda>f. name f @ newline) files)),
       getLanguageFromFilename = (\<lambda>nm. drop 1 (posix_extname nm)),
       localeCompare = codeUnitCompare \<rparr>"

text \<open>Two scanned files, listed in the order \<open>b.txt\<close>, \<open>a.txt\<close>.\<close>

definition demo_files :: "file_data list" where
  "demo_files =
     [demo_record ''b.txt'' ''/r/b.txt'' ''b.txt'' 2 ''hi'',
      demo_record ''a.txt'' ''/r/a.txt'' ''a.txt'' 4 ''text'']"

section \<open>Properties\<close>

lemma ceil_quarter: "int ((n + 3) div 4) = \<lceil>real n / 4\<rceil>"
proof -
  have "\<lceil>real n / 4\<rceil> = \<lceil>real_of_int (int n) / real_of_int 4\<rceil>"
    by simp
  also have "\<dots> = - ((- int n) div 4)"
    by (simp only: ceiling_divide_eq_div)
  also have "\<dots> = int ((n + 3) div 4)"
    by (simp add: zdiv_int)
  finally show ?thesis by simp
qed

text \<open>
  C6. \<open>countTokens\<close> is a total function into the natural numbers: its \<open>try\<close> block
  catches what \<open>encode\<close> throws, and nothing else in it can throw for a string. When the
  encoder is missing, or \<open>encode\<close> throws on the cleaned text, the result is exactly the
  ceiling of a quarter of the length of the text. The empty string counts 0 tokens, whether
  the encoder is missing or present.
\<close>

theorem countTokens_fallback_and_empty:
  "(encoder env = None \<longrightarrow> int (countTokens env text) = \<lceil>real (length text) / 4\<rceil>) \<and>
   (\<forall>tk. encoder env = Some tk \<longrightarrow> encode tk (removeEndOfText text) = None \<longrightarrow>
      int (countTokens env text) = \<lceil>real (length text) / 4\<rceil>) \<and>
   countTokens env [] = 0"
proof -
  have "encode tk [] = Some []" for tk
    by (simp add: encode_def list_ex_iff bpe.simps [of _ "[]"] find_None_iff [THEN iffD2])
  then show ?thesis
    by (auto simp: countTokens_def fallbackCount_def ceil_quarter Let_def
          split: option.splits)
qed

theorem countTokens_fallback_and_empty_witness:
  "encoder demo_env = None \<and>
   int (countTokens demo_env ''hello'') = \<lceil>real (length ''hello'') / 4\<rceil> \<and>
   encoder (demo_env\<lparr> encoder := Some demo_tokenizer \<rparr>) = Some demo_tokenizer \<and>
   encode demo_tokenizer (removeEndOfText ''a<|endofprompt|>b'') = None \<and>
   int (countTokens (demo_env\<lparr> encoder := Some demo_tokenizer \<rparr>) ''a<|endofprompt|>b'')
     = \<lceil>real (length ''a<|endofprompt|>b'') / 4\<rceil> \<and>
   countTokens (demo_env\<lparr> encoder := Some demo_tokenizer \<rparr>) [] = 0"
proof -
  have e: "encoder demo_env = None"
    by (simp add: demo_env_def posix_env_def)
  have e1: "encoder (demo_env\<lparr> encoder := Some demo_tokenizer \<rparr>) = Some demo_tokenizer"
    by simp
  have t: "encode demo_tokenizer (removeEndOfText ''a<|endofprompt|>b'') = None"
    by (simp add: encode_def demo_tokenizer_def)
  show ?thesis
    using e e1 t
      countTokens_fallback_and_empty [of demo_env "''hello''"]
      countTokens_fallback_and_empty
        [of "demo_env\<lparr> encoder := Some demo_tokenizer \<rparr>" "''a<|endofprompt|>b''"]
    by simp
qed

subsection \<open>Evaluation in the POSIX instance\<close>

lemma posix_env_fields:
  "platform (posix_env e d) = Linux"
  "toLowerCase (posix_env e d) = asciiLower"
  "toUpperCase (posix_env e d) = asciiUpper"
  "binaryExtensions (posix_env e d) = e"
  "encoder (posix_env e d) = None"
  "chokidarLoaded (posix_env e d) = True"
  "appPath (posix_env e d) = ''/opt/PasteMax/resources/app''"
  "loadGitignore (posix_env e d) rd rel = startsWith rel ''node_modules''"
  "excludedIgnores (posix_env e d) rel = (rel = ''package-lock.json'')"
  "path_isAbsolute (posix_env e d) = posix_isAbsolute"
  "path_resolve (posix_env e d) = posix_resolve ''/home/user''"
  "path_join (posix_env e d) = posix_join"
  "path_relative (posix_env e d) = posix_relative ''/home/user''"
  "path_basename (posix_env e d) = posix_basename"
  "path_extname (posix_env e d) = posix_extname"
  "path_parse_ok (posix_env e d) p = True"
  "fs_stat (posix_env e d) = statOf d"
  "fs_readFile (posix_env e d) = readOf d"
  by (simp_all add: posix_env_def)

lemmas path_defs = normalizePath_def ensureAbsolutePath_def safePathJoin_def
  safeRelativePath_def isValidPath_def outsideRoot_def startsWith_def replaceBackslashes_def
  backslash_def

lemmas posix_defs = posix_isAbsolute_def posix_normalize_def posix_join_def
  resolvedSegments_def posix_resolve_def posix_relative_def posix_basename_def
  posix_extname_def

lemma demo_root:
  "ensureAbsolutePath (posix_env e d) ''/r'' = ''/r''"
  by (simp add: posix_env_fields path_defs posix_defs)

lemma demo_join:
  "safePathJoin (posix_env e d) ''/r'' ''a.txt'' = ''/r/a.txt''"
  "safePathJoin (posix_env e d) ''/r'' ''logo.png'' = ''/r/logo.png''"
  "safePathJoin (posix_env e d) ''/r'' ''big.png'' = ''/r/big.png''"
  "safePathJoin (posix_env e d) ''/r'' ''locked.txt'' = ''/r/locked.txt''"
  "safePathJoin (posix_env e d) ''/r'' ''gone.txt'' = ''/r/gone.txt''"
  "safePathJoin (posix_env e d) ''/r/Tool.app'' ''x.txt'' = ''/r/Tool.app/x.txt''"
  by (simp_all add: posix_env_fields path_defs posix_defs Let_def)

lemma demo_absolute:
  "ensureAbsolutePath (posix_env e d) ''/r/a.txt'' = ''/r/a.txt''"
  "ensureAbsolutePath (posix_env e d) ''/r/logo.png'' = ''/r/logo.png''"
  "ensureAbsolutePath (posix_env e d) ''/r/big.png'' = ''/r/big.png''"
  "ensureAbsolutePath (posix_env e d) ''/r/locked.txt'' = ''/r/locked.txt''"
  "ensureAbsolutePath (posix_env e d) ''/r/gone.txt'' = ''/r/gone.txt''"
  "ensureAbsolutePath (posix_env e d) ''/r/Tool.app/x.txt'' = ''/r/Tool.app/x.txt''"
  by (simp_all add: posix_env_fields path_defs posix_defs)

lemma demo_relative:
  "safeRelativePath (posix_env e d) ''/r'' ''/r/a.txt'' = ''a.txt''"
  "safeRelativePath (posix_env e d) ''/r'' ''/r/logo.png'' = ''logo.png''"
  "safeRelativePath (posix_env e d) ''/r'' ''/r/big.png'' = ''big.png''"
  "safeRelativePath (posix_env e d) ''/r'' ''/r/locked.txt'' = ''locked.txt''"
  "safeRelativePath (posix_env e d) ''/r'' ''/r/gone.txt'' = ''gone.txt''"
  "safeRelativePath (posix_env e d) ''/r'' ''/r/Tool.app/x.txt'' = ''Tool.app/x.txt''"
  by (simp_all add: posix_env_fields path_defs posix_defs Let_def)

lemma demo_inside:
  "\<not> outsideRoot (posix_env e d) ''a.txt''"
  "\<not> outsideRoot (posix_env e d) ''logo.png''"
  "\<not> outsideRoot (posix_env e d) ''big.png''"
  "\<not> outsideRoot (posix_env e d) ''locked.txt''"
  "\<not> outsideRoot (posix_env e d) ''gone.txt''"
  "\<not> outsideRoot (posix_env e d) ''Tool.app/x.txt''"
  by (simp_all add: posix_env_fields path_defs)

lemma demo_not_ignored:
  "\<not> startsWith ''a.txt'' ''node_modules''"
  "\<not> startsWith ''logo.png'' ''node_modules''"
  "\<not> startsWith ''big.png'' ''node_modules''"
  "\<not> startsWith ''locked.txt'' ''node_modules''"
  "\<not> startsWith ''gone.txt'' ''node_modules''"
  "\<not> startsWith ''Tool.app/x.txt'' ''node_modules''"
  by (simp_all add: startsWith_def)

lemma demo_bundle:
  "\<not> isAppBundle ''/r/a.txt''"
  "\<not> isAppBundle ''/r/logo.png''"
  "\<not> isAppBundle ''/r/big.png''"
  "\<not> isAppBundle ''/r/locked.txt''"
  "\<not> isAppBundle ''/r/gone.txt''"
  "isAppBundle ''/r/Tool.app/x.txt''"
  by simp_all

lemma demo_names:
  "posix_basename ''/r/a.txt'' = ''a.txt''"
  "posix_basename ''/r/logo.png'' = ''logo.png''"
  "posix_basename ''/r/gone.txt'' = ''gone.txt''"
  "posix_basename ''/r/Tool.app/x.txt'' = ''x.txt''"
  "posix_extname ''/r/a.txt'' = ''.txt''"
  "posix_extname ''/r/logo.png'' = ''.png''"
  "posix_extname ''/r/big.png'' = ''.png''"
  "posix_extname ''/r/locked.txt'' = ''.txt''"
  "posix_extname ''/r/Tool.app/x.txt'' = ''.txt''"
  by (simp_all add: posix_defs)

lemma demo_stat:
  "statOf demo_disk ''/r/a.txt'' = Inr 2"
  "statOf demo_disk ''/r/logo.png'' = Inr 3"
  "statOf demo_disk ''/r/big.png'' = Inr 5242881"
  "statOf demo_disk ''/r/locked.txt'' = Inr 7"
  "statOf demo_disk ''/r/gone.txt'' = Inl (enoent ''stat'' ''/r/gone.txt'')"
  "statOf demo_disk ''/r/Tool.app/x.txt'' = Inr 4"
  by (simp_all add: statOf_def demo_disk_def)

lemma demo_read:
  "readOf demo_disk ''/r/a.txt'' = Inr ''hi''"
  "readOf demo_disk ''/r/logo.png'' = Inr ''PNG''"
  "readOf demo_disk ''/r/locked.txt''
     = Inl (FsError ''EPERM'' ''EPERM: operation not permitted'')"
  "readOf demo_disk ''/r/Tool.app/x.txt'' = Inr ''text''"
  by (simp_all add: readOf_def demo_disk_def)

lemma lower_extensions:
  "asciiLower ''.png'' = ''.png''"
  "asciiLower ''png'' = ''png''"
  "asciiLower ''.txt'' = ''.txt''"
  "asciiLower ''txt'' = ''txt''"
  "asciiUpper ''png'' = ''PNG''"
  by (simp_all add: asciiLower_def toLowerChar_def asciiUpper_def toUpperChar_def)

lemma scanning_state_fields:
  "isLoadingDirectory scanning_state"
  "cancelIn scanning_state = None"
  "windowUsable scanning_state"
  "sent scanning_state = []"
  "fsCalls scanning_state = 0"
  "currentWatcher scanning_state = None"
  by (simp_all add: scanning_state_def idle_state_def)

lemmas demo_facts = posix_env_fields demo_root demo_join demo_absolute demo_relative
  demo_inside demo_not_ignored demo_bundle demo_names demo_stat demo_read
  lower_extensions scanning_state_fields

subsection \<open>What one file task returns\<close>

lemma awaitFs_no_cancel:
  "cancelIn s = None \<Longrightarrow> awaitFs s = s\<lparr> fsCalls := fsCalls s + 1 \<rparr>"
  by (simp add: awaitFs_def suspend_def)

lemma chunk_produces_record:
  assumes "isLoadingDirectory s" and "cancelIn s = None"
    and "\<not> isAppBundle (safePathJoin env dir nm)"
    and "safePathJoin env dir nm \<noteq> appPath env"
    and "\<not> outsideRoot env (safeRelativePath env rootDir (safePathJoin env dir nm))"
    and "\<not> ig (safeRelativePath env rootDir (safePathJoin env dir nm))"
  shows "\<exists>r. fst (processChunkFile env dir rootDir ig nm s) = Some r"
  using assms
  by (simp add: processChunkFile_def Let_def awaitFs_no_cancel split: sum.splits)

lemma single_produces_record:
  assumes "\<not> outsideRoot env (safeRelativePath env (ensureAbsolutePath env rootDir)
                                (ensureAbsolutePath env p))"
    and "\<not> ig (safeRelativePath env (ensureAbsolutePath env rootDir)
                   (ensureAbsolutePath env p))"
  shows "\<exists>r. processSingleFile env p rootDir ig = Some r"
  using assms
  by (simp add: processSingleFile_def Let_def split: sum.splits)

lemma chunk_stat_fails:
  assumes "fs_stat env (safePathJoin env dir nm) = Inl e"
    and "fst (processChunkFile env dir rootDir ig nm s) = Some r"
  shows "r = chunkFileError env nm (safePathJoin env dir nm)
              (safeRelativePath env rootDir (safePathJoin env dir nm)) e"
  using assms by (simp add: processChunkFile_def Let_def split: if_splits)

lemma chunk_read_fails:
  assumes "fs_stat env (safePathJoin env dir nm) = Inr sz" and "sz \<le> MAX_FILE_SIZE"
    and "\<not> isBinaryFile env (safePathJoin env dir nm)"
    and "fs_readFile env (safePathJoin env dir nm) = Inl e"
    and "fst (processChunkFile env dir rootDir ig nm s) = Some r"
  shows "r = chunkFileError env nm (safePathJoin env dir nm)
              (safeRelativePath env rootDir (safePathJoin env dir nm)) e"
  using assms by (simp add: processChunkFile_def Let_def split: if_splits)

lemma chunk_oversized:
  assumes "fs_stat env (safePathJoin env dir nm) = Inr sz" and "MAX_FILE_SIZE < sz"
    and "fst (processChunkFile env dir rootDir ig nm s) = Some r"
  shows "isSkipped r \<and> \<not> isBinary r \<and> content r = Some [] \<and> tokenCount r = 0 \<and>
         size_bytes r = sz"
  using assms by (auto simp add: processChunkFile_def Let_def split: if_splits)

lemma single_stat_fails:
  assumes "fs_stat env (ensureAbsolutePath env p) = Inl e"
    and "processSingleFile env p rootDir ig = Some r"
  shows "r = singleFileError env (ensureAbsolutePath env p) (ensureAbsolutePath env rootDir) e"
  using assms by (simp add: processSingleFile_def Let_def split: if_splits)

lemma single_read_fails:
  assumes "fs_stat env (ensureAbsolutePath env p) = Inr sz" and "sz \<le> MAX_FILE_SIZE"
    and "toLowerCase env (drop 1 (path_extname env (ensureAbsolutePath env p)))
             \<notin> set (binaryExtensions env)"
    and "fs_readFile env (ensureAbsolutePath env p) = Inl e"
    and "processSingleFile env p rootDir ig = Some r"
  shows "r = singleFileError env (ensureAbsolutePath env p) (ensureAbsolutePath env rootDir) e"
  using assms by (simp add: processSingleFile_def Let_def split: if_splits)

lemma single_oversized:
  assumes "fs_stat env (ensureAbsolutePath env p) = Inr sz" and "MAX_FILE_SIZE < sz"
    and "processSingleFile env p rootDir ig = Some r"
  shows "isSkipped r \<and> \<not> isBinary r \<and> content r = Some [] \<and> tokenCount r = 0 \<and>
         size_bytes r = sz"
  using assms by (auto simp add: processSingleFile_def Let_def split: if_splits)

lemma chunkFileError_fields:
  "size_bytes (chunkFileError env nm fp rel e) = 0"
  "\<not> isBinary (chunkFileError env nm fp rel e)"
  "isSkipped (chunkFileError env nm fp rel e)"
  "content (chunkFileError env nm fp rel e) = None"
  "tokenCount (chunkFileError env nm fp rel e) = 0"
  by (simp_all add: chunkFileError_def)

lemma singleFileError_fields:
  "size_bytes (singleFileError env fp rd e) = 0"
  "\<not> isBinary (singleFileError env fp rd e)"
  "isSkipped (singleFileError env fp rd e)"
  "content (singleFileError env fp rd e) = Some []"
  "tokenCount (singleFileError env fp rd e) = 0"
  by (simp_all add: singleFileError_def)

lemmas demo_defs = demo_env_def demo_ignore_def

lemmas run_defs = processChunkFile_def processSingleFile_def Let_def awaitFs_no_cancel
  chunkFileError_def singleFileError_def isBinaryFile_def MAX_FILE_SIZE_def enoent_def

subsection \<open>Oversized files\<close>


text \<open>
  C5. A file whose size exceeds the 5 MiB ceiling is recorded with \<open>isSkipped = true\<close>,
  empty content and \<open>tokenCount = 0\<close>, by the scanner's task and by the watcher's pipeline,
  whatever its extension and whatever the binary-extension table holds.
\<close>

theorem oversized_file_is_skipped:
  assumes "MAX_FILE_SIZE < sz"
  shows "(fs_stat env (safePathJoin env dir nm) = Inr sz \<and>
          fst (processChunkFile env dir rootDir ig nm s) = Some r
            \<longrightarrow> isSkipped r \<and> content r = Some [] \<and> tokenCount r = 0) \<and>
         (fs_stat env (ensureAbsolutePath env p) = Inr sz \<and>
          processSingleFile env p rootDir ig = Some r'
            \<longrightarrow> isSkipped r' \<and> content r' = Some [] \<and> tokenCount r' = 0)"
  using assms chunk_oversized [of env dir nm sz rootDir ig s r]
    single_oversized [of env p sz rootDir ig r']
  by blast

theorem oversized_file_is_skipped_witness:
  "MAX_FILE_SIZE < 5242881 \<and>
   toLowerCase (posix_env [''.png'', ''png''] demo_disk)
       (path_extname (posix_env [''.png'', ''png''] demo_disk) ''/r/big.png'')
     \<in> set (binaryExtensions (posix_env [''.png'', ''png''] demo_disk)) \<and>
   (\<exists>r. fst (processChunkFile (posix_env [''.png'', ''png''] demo_disk) ''/r'' ''/r''
               (\<lambda>rel. False) ''big.png'' scanning_state) = Some r \<and>
        isSkipped r \<and> content r = Some [] \<and> tokenCount r = 0) \<and>
   (\<exists>r. processSingleFile (posix_env [''.png'', ''png''] demo_disk) ''/r/big.png'' ''/r''
               (\<lambda>rel. False) = Some r \<and>
        isSkipped r \<and> content r = Some [] \<and> tokenCount r = 0)"
proof -
  let ?E = "posix_env [''.png'', ''png''] demo_disk"
  have big: "MAX_FILE_SIZE < 5242881"
    by (simp add: MAX_FILE_SIZE_def)
  have ext: "toLowerCase ?E (path_extname ?E ''/r/big.png'') \<in> set (binaryExtensions ?E)"
    by (simp add: demo_facts)
  obtain r where r: "fst (processChunkFile ?E ''/r'' ''/r'' (\<lambda>rel. False) ''big.png''
                            scanning_state) = Some r"
    using chunk_produces_record [of scanning_state ?E "''/r''" "''big.png''" "''/r''" "\<lambda>rel. False"]
    by (auto simp: demo_facts)
  obtain r' where r': "processSingleFile ?E ''/r/big.png'' ''/r'' (\<lambda>rel. False) = Some r'"
    using single_produces_record [of ?E "''/r''" "''/r/big.png''" "\<lambda>rel. False"]
    by (auto simp: demo_facts)
  have "isSkipped r \<and> content r = Some [] \<and> tokenCount r = 0"
    using oversized_file_is_skipped [OF big, of ?E "''/r''" "''big.png''" "''/r''"
        "\<lambda>rel. False" scanning_state r] r
    by (simp add: demo_facts)
  moreover have "isSkipped r' \<and> content r' = Some [] \<and> tokenCount r' = 0"
    using oversized_file_is_skipped [OF big, of ?E _ _ "''/r''" "\<lambda>rel. False" _ _
        "''/r/big.png''" r'] r'
    by (simp add: demo_facts)
  ultimately show ?thesis
    using big ext r r' by blast
qed


subsection \<open>Per-file I/O errors\<close>

text \<open>
  C10. When the \<open>stat\<close> of a file fails, or its \<open>readFile\<close> fails (the file being neither
  oversized nor binary, so that it is read), the record that is emitted reports
  \<open>size = 0\<close>, whatever \<open>stat\<close> said, with \<open>isBinary = false\<close> and \<open>isSkipped = true\<close>; this
  holds for the scanner's task and for the watcher's pipeline.
\<close>

theorem io_error_record_has_size_zero:
  "(fst (processChunkFile env dir rootDir ig nm s) = Some r \<and>
    (fs_stat env (safePathJoin env dir nm) = Inl e \<or>
     (\<exists>sz. fs_stat env (safePathJoin env dir nm) = Inr sz \<and> sz \<le> MAX_FILE_SIZE \<and>
           \<not> isBinaryFile env (safePathJoin env dir nm) \<and>
           fs_readFile env (safePathJoin env dir nm) = Inl e))
      \<longrightarrow> size_bytes r = 0 \<and> \<not> isBinary r \<and> isSkipped r) \<and>
   (processSingleFile env p rootDir ig = Some r' \<and>
    (fs_stat env (ensureAbsolutePath env p) = Inl e \<or>
     (\<exists>sz. fs_stat env (ensureAbsolutePath env p) = Inr sz \<and> sz \<le> MAX_FILE_SIZE \<and>
           toLowerCase env (drop 1 (path_extname env (ensureAbsolutePath env p)))
             \<notin> set (binaryExtensions env) \<and>
           fs_readFile env (ensureAbsolutePath env p) = Inl e))
      \<longrightarrow> size_bytes r' = 0 \<and> \<not> isBinary r' \<and> isSkipped r')"
proof (intro conjI impI)
  assume "fst (processChunkFile env dir rootDir ig nm s) = Some r \<and>
    (fs_stat env (safePathJoin env dir nm) = Inl e \<or>
     (\<exists>sz. fs_stat env (safePathJoin env dir nm) = Inr sz \<and> sz \<le> MAX_FILE_SIZE \<and>
           \<not> isBinaryFile env (safePathJoin env dir nm) \<and>
           fs_readFile env (safePathJoin env dir nm) = Inl e))"
  then have "r = chunkFileError env nm (safePathJoin env dir nm)
              (safeRelativePath env rootDir (safePathJoin env dir nm)) e"
    using chunk_stat_fails chunk_read_fails by blast
  then show "size_bytes r = 0" "\<not> isBinary r" "isSkipped r"
    by (simp_all add: chunkFileError_fields)
next
  assume "processSingleFile env p rootDir ig = Some r' \<and>
    (fs_stat env (ensureAbsolutePath env p) = Inl e \<or>
     (\<exists>sz. fs_stat env (ensureAbsolutePath env p) = Inr sz \<and> sz \<le> MAX_FILE_SIZE \<and>
           toLowerCase env (drop 1 (path_extname env (ensureAbsolutePath env p)))
             \<notin> set (binaryExtensions env) \<and>
           fs_readFile env (ensureAbsolutePath env p) = Inl e))"
  then have "r' = singleFileError env (ensureAbsolutePath env p)
               (ensureAbsolutePath env rootDir) e"
    using single_stat_fails single_read_fails by blast
  then show "size_bytes r' = 0" "\<not> isBinary r'" "isSkipped r'"
    by (simp_all add: singleFileError_fields)
qed

theorem io_error_record_has_size_zero_witness:
  "fs_stat demo_env ''/r/locked.txt'' = Inr 7 \<and>
   (\<exists>r. fst (processChunkFile demo_env ''/r'' ''/r'' demo_ignore ''locked.txt''
               scanning_state) = Some r \<and>
        size_bytes r = 0 \<and> \<not> isBinary r \<and> isSkipped r) \<and>
   (\<exists>r. processSingleFile demo_env ''/r/locked.txt'' ''/r'' demo_ignore = Some r \<and>
        size_bytes r = 0 \<and> \<not> isBinary r \<and> isSkipped r)"
proof -
  let ?e = "FsError ''EPERM'' ''EPERM: operation not permitted''"
  have st: "fs_stat demo_env ''/r/locked.txt'' = Inr 7"
    and rd: "fs_readFile demo_env ''/r/locked.txt'' = Inl ?e"
    and nb: "\<not> isBinaryFile demo_env ''/r/locked.txt''"
    and nb': "toLowerCase demo_env (drop 1 (path_extname demo_env ''/r/locked.txt''))
                \<notin> set (binaryExtensions demo_env)"
    and le: "(7::nat) \<le> MAX_FILE_SIZE"
    by (simp_all add: demo_defs demo_facts isBinaryFile_def MAX_FILE_SIZE_def)
  obtain r where r: "fst (processChunkFile demo_env ''/r'' ''/r'' demo_ignore ''locked.txt''
                            scanning_state) = Some r"
    using chunk_produces_record [of scanning_state demo_env "''/r''" "''locked.txt''" "''/r''"
        demo_ignore]
    by (auto simp: demo_defs demo_facts)
  obtain r' where r': "processSingleFile demo_env ''/r/locked.txt'' ''/r'' demo_ignore = Some r'"
    using single_produces_record [of demo_env "''/r''" "''/r/locked.txt''" demo_ignore]
    by (auto simp: demo_defs demo_facts)
  have j: "safePathJoin demo_env ''/r'' ''locked.txt'' = ''/r/locked.txt''"
    and a: "ensureAbsolutePath demo_env ''/r/locked.txt'' = ''/r/locked.txt''"
    by (simp_all add: demo_defs demo_facts)
  have "size_bytes r = 0 \<and> \<not> isBinary r \<and> isSkipped r"
    using io_error_record_has_size_zero [of demo_env "''/r''" "''/r''" demo_ignore
        "''locked.txt''" scanning_state r ?e] r st rd nb le j
    by auto
  moreover have "size_bytes r' = 0 \<and> \<not> isBinary r' \<and> isSkipped r'"
    using io_error_record_has_size_zero [of demo_env _ "''/r''" demo_ignore _ _ _ ?e
        "''/r/locked.txt''" r'] r' st rd nb' le a
    by auto
  ultimately show ?thesis
    using st r r' by blast
qed


subsection \<open>Binary files\<close>

text \<open>
  C4. The two paths test the extension against the same table in two spellings:
  \<open>isBinaryFile\<close> (scanner) looks up \<open>.png\<close>, \<open>processSingleFile\<close> (watcher) looks up
  \<open>png\<close>. With the table spelled as \<open>isBinaryFile\<close> expects, the watcher reads a small
  \<open>logo.png\<close> as text: \<open>isBinary = false\<close>, its content and a nonzero token count. With the
  other spelling the scanner is the one that misses it.
\<close>

theorem binary_extension_tests_disagree:
  "map_option isBinary (fst (processChunkFile demo_env ''/r'' ''/r'' demo_ignore ''logo.png''
      scanning_state)) = Some True \<and>
   map_option isBinary (processSingleFile demo_env ''/r/logo.png'' ''/r'' demo_ignore)
     = Some False \<and>
   map_option content (processSingleFile demo_env ''/r/logo.png'' ''/r'' demo_ignore)
     = Some (Some ''PNG'') \<and>
   map_option tokenCount (processSingleFile demo_env ''/r/logo.png'' ''/r'' demo_ignore)
     = Some 1 \<and>
   map_option isBinary (fst (processChunkFile (posix_env [''png'', ''jpg''] demo_disk) ''/r''
      ''/r'' demo_ignore ''logo.png'' scanning_state)) = Some False \<and>
   map_option isBinary (processSingleFile (posix_env [''png'', ''jpg''] demo_disk)
      ''/r/logo.png'' ''/r'' demo_ignore) = Some True"
  by (simp add: demo_defs run_defs demo_facts countTokens_def fallbackCount_def)


subsection \<open>The record invariant\<close>

text \<open>
  C8. The per-file \<open>catch\<close> block of the scanner builds a skipped record without a
  \<open>content\<close> property, where every other branch, and the \<open>catch\<close> block of the watcher,
  set \<open>content\<close> to the empty string: for a file that cannot be read, the scanner's record
  has \<open>isSkipped = true\<close> and an undefined \<open>content\<close>.
\<close>

theorem scanner_error_record_has_no_content:
  "map_option isSkipped (fst (processChunkFile demo_env ''/r'' ''/r'' demo_ignore
      ''locked.txt'' scanning_state)) = Some True \<and>
   map_option content (fst (processChunkFile demo_env ''/r'' ''/r'' demo_ignore
      ''locked.txt'' scanning_state)) = Some None \<and>
   map_option content (processSingleFile demo_env ''/r/locked.txt'' ''/r'' demo_ignore)
     = Some (Some [])"
  by (simp add: demo_defs run_defs demo_facts)


subsection \<open>Watcher pipeline and scanner task\<close>

text \<open>
  C2. The comment on \<open>processSingleFile\<close> says that it is used by both the initial scan and
  the watcher, but the scanner's task is a second copy of the pipeline, and the copies
  differ. For a vanished file, \<open>gone.txt\<close>, both emit a skipped record, the scanner's with
  the error text \<open>File not found\<close> and no \<open>content\<close>, the watcher's with the text of the
  exception and an empty \<open>content\<close>. For \<open>logo.png\<close> the scanner's record is binary and the
  watcher's is not. For a file inside an \<open>.app\<close> bundle the scanner's task returns nothing
  and the watcher's pipeline emits a record. None of the three paths is ignored.
\<close>

theorem watcher_differs_from_scanner_task:
  "\<not> demo_ignore (safeRelativePath demo_env ''/r'' ''/r/gone.txt'') \<and>
   map_option error (fst (processChunkFile demo_env ''/r'' ''/r'' demo_ignore ''gone.txt''
      scanning_state)) = Some (Some ''File not found'') \<and>
   map_option error (processSingleFile demo_env ''/r/gone.txt'' ''/r'' demo_ignore)
     = Some (Some (''Error: ENOENT: no such file or directory, stat '' @ [CHR 0x27] @
                   ''/r/gone.txt'' @ [CHR 0x27])) \<and>
   map_option content (fst (processChunkFile demo_env ''/r'' ''/r'' demo_ignore ''gone.txt''
      scanning_state)) = Some None \<and>
   map_option content (processSingleFile demo_env ''/r/gone.txt'' ''/r'' demo_ignore)
     = Some (Some []) \<and>
   \<not> demo_ignore (safeRelativePath demo_env ''/r'' ''/r/logo.png'') \<and>
   map_option isBinary (fst (processChunkFile demo_env ''/r'' ''/r'' demo_ignore ''logo.png''
      scanning_state)) = Some True \<and>
   map_option isBinary (processSingleFile demo_env ''/r/logo.png'' ''/r'' demo_ignore)
     = Some False \<and>
   \<not> demo_ignore (safeRelativePath demo_env ''/r'' ''/r/Tool.app/x.txt'') \<and>
   fst (processChunkFile demo_env ''/r/Tool.app'' ''/r'' demo_ignore ''x.txt''
      scanning_state) = None \<and>
   map_option name (processSingleFile demo_env ''/r/Tool.app/x.txt'' ''/r'' demo_ignore)
     = Some ''x.txt''"
  by (simp add: demo_defs run_defs demo_facts)

subsection \<open>The walk as a run of steps\<close>

lemma reach_trans: "reach s1 s2 \<Longrightarrow> reach s0 s1 \<Longrightarrow> reach s0 s2"
  by (induction rule: reach.induct) (auto intro: reach.intros)

lemma reach_processChunkFile: "reach s (snd (processChunkFile env dir rootDir ig nm s))"
  by (auto simp: processChunkFile_def Let_def split: sum.splits intro!: reach.intros)

lemma reach_runChunk: "reach s (snd (runChunk env dir rootDir ig nms s))"
proof (induction nms arbitrary: s)
  case Nil
  show ?case by (simp add: reach_refl)
next
  case (Cons nm nms)
  have 1: "reach s (snd (processChunkFile env dir rootDir ig nm s))"
    by (rule reach_processChunkFile)
  have 2: "reach (snd (processChunkFile env dir rootDir ig nm s))
             (snd (runChunk env dir rootDir ig nms (snd (processChunkFile env dir rootDir ig nm s))))"
    by (rule Cons.IH)
  show ?case
    using reach_trans [OF 2 1] by (simp add: split_beta)
qed

lemma reach_processChunks:
  "reach s (snd (processChunks env dir rootDir ig files i n results s))"
proof (induction env dir rootDir ig files i n results s rule: processChunks.induct)
  case (1 env dir rootDir ig files i n results s)
  show ?case
  proof (cases "i < length files \<and> isLoadingDirectory s")
    case False
    then show ?thesis
      by (auto simp: processChunks.simps [of env dir rootDir ig files i n results s] reach_refl)
  next
    case True
    let ?chunk = "take CHUNK_SIZE (drop i files)"
    obtain rs s1 where rc: "runChunk env dir rootDir ig ?chunk s = (rs, s1)"
      by (cases "runChunk env dir rootDir ig ?chunk s")
    have r1: "reach s s1"
      using reach_runChunk [of s env dir rootDir ig ?chunk] rc by simp
    show ?thesis
    proof (cases "isLoadingDirectory s1")
      case False
      then show ?thesis
        using True rc r1
        by (simp add: processChunks.simps [of env dir rootDir ig files i n results s])
    next
      case l1: True
      have "reach (send (processingStatus (n + length ?chunk) (length files)) s1)
              (snd (processChunks env dir rootDir ig files (i + CHUNK_SIZE) (n + length ?chunk)
                 (results @ List.map_filter (\<lambda>r. r) rs)
                 (send (processingStatus (n + length ?chunk) (length files)) s1)))"
        using "1.IH" [OF _ _ refl rc [symmetric]] True l1 by simp
      moreover have "reach s (send (processingStatus (n + length ?chunk) (length files)) s1)"
        unfolding processingStatus_def using r1 l1 by (rule reach_send)
      ultimately show ?thesis
        using True rc l1 reach_trans
        by (simp add: processChunks.simps [of env dir rootDir ig files i n results s])
    qed
  qed
qed



lemma readFilesRecursively_idle:
  "\<not> isLoadingDirectory s \<Longrightarrow> readFilesRecursively env tree dir0 rootDir0 ig0 s = ([], s)"
  by (simp add: readFilesRecursively.simps)

lemma readFilesRecursively_stop:
  assumes "isLoadingDirectory s"
    and "\<not> (\<exists>dirents. tree = Dir dirents \<and> isLoadingDirectory (awaitFs s))"
  shows "readFilesRecursively env tree dir0 rootDir0 ig0 s = ([], awaitFs s)"
  using assms by (auto simp: readFilesRecursively.simps Let_def split: dtree.splits)

lemma readFilesRecursively_Dir:
  assumes "isLoadingDirectory s" and "isLoadingDirectory (awaitFs s)"
    and "dir = ensureAbsolutePath env dir0"
    and "rootDir = ensureAbsolutePath env (if rootDir0 = [] then dir else rootDir0)"
    and "ig = (case ig0 of None \<Rightarrow> loadGitignore env rootDir | Some f \<Rightarrow> f)"
    and "processDirectories env (filter isDirectory dirents) dir rootDir ig [] (awaitFs s)
           = ((ret, res), s2)"
  shows "readFilesRecursively env (Dir dirents) dir0 rootDir0 ig0 s =
           (if ret then (res, s2)
            else processChunks env dir rootDir ig (map fst (filter isFile dirents)) 0 0 res s2)"
  using assms(1,2,6) unfolding assms(5) assms(4) assms(3)
  by (simp add: readFilesRecursively.simps Let_def)

lemma processDirectories_idle:
  "\<not> isLoadingDirectory s \<Longrightarrow>
   processDirectories env ((nm, t) # rest) dir rootDir ig results s = ((True, results), s)"
  by (simp add: processDirectories.simps)

lemma processDirectories_skip:
  assumes "isLoadingDirectory s" and "fullPath = safePathJoin env dir nm"
    and "rel = safeRelativePath env rootDir fullPath"
    and "isAppBundle fullPath \<or> fullPath = appPath env \<or> outsideRoot env rel"
  shows "processDirectories env ((nm, t) # rest) dir rootDir ig results s =
           processDirectories env rest dir rootDir ig results s"
  using assms(1,4) unfolding assms(3) assms(2)
  by (simp add: processDirectories.simps Let_def)

lemma processDirectories_ignored:
  assumes "isLoadingDirectory s" and "fullPath = safePathJoin env dir nm"
    and "rel = safeRelativePath env rootDir fullPath"
    and "\<not> (isAppBundle fullPath \<or> fullPath = appPath env \<or> outsideRoot env rel)"
    and "ig rel"
  shows "processDirectories env ((nm, t) # rest) dir rootDir ig results s =
           processDirectories env rest dir rootDir ig results (send scanningStatus s)"
  using assms(1,4,5) unfolding assms(3) assms(2)
  by (simp add: processDirectories.simps Let_def)

lemma processDirectories_descend:
  assumes "isLoadingDirectory s" and "fullPath = safePathJoin env dir nm"
    and "rel = safeRelativePath env rootDir fullPath"
    and "\<not> (isAppBundle fullPath \<or> fullPath = appPath env \<or> outsideRoot env rel)"
    and "\<not> ig rel"
    and "readFilesRecursively env t fullPath rootDir (Some ig) s = (sub, s1)"
  shows "processDirectories env ((nm, t) # rest) dir rootDir ig results s =
           (if \<not> isLoadingDirectory s1 then ((True, results), s1)
            else processDirectories env rest dir rootDir ig (results @ sub)
                   (send scanningStatus s1))"
  using assms(1,4,5,6) unfolding assms(3) assms(2)
  by (simp add: processDirectories.simps Let_def)

lemma reach_walk:
  "reach s (snd (readFilesRecursively env tree dir0 rootDir0 ig0 s))"
  "reach s (snd (processDirectories env ds dir rootDir ig results s))"
proof (induction env tree dir0 rootDir0 ig0 s and env ds dir rootDir ig results s
       rule: readFilesRecursively_processDirectories.induct)
  case (1 env tree dir0 rootDir0 ignoreFilter0 s)
  show ?case
  proof (cases "isLoadingDirectory s")
    case False
    then show ?thesis by (simp add: readFilesRecursively_idle reach_refl)
  next
    case True
    then have a: "reach s (awaitFs s)"
      by (auto intro: reach.intros)
    show ?thesis
    proof (cases "\<exists>dirents. tree = Dir dirents \<and> isLoadingDirectory (awaitFs s)")
      case False
      then show ?thesis
        using True a by (simp add: readFilesRecursively_stop)
    next
      case t: True
      then obtain dirents where tree: "tree = Dir dirents" and l: "isLoadingDirectory (awaitFs s)"
        by blast
      define dir where "dir = ensureAbsolutePath env dir0"
      define rootDir where "rootDir = ensureAbsolutePath env (if rootDir0 = [] then dir else rootDir0)"
      define ig where "ig = (case ignoreFilter0 of None \<Rightarrow> loadGitignore env rootDir | Some f \<Rightarrow> f)"
      obtain ret res s2 where pd:
        "processDirectories env (filter isDirectory dirents) dir rootDir ig [] (awaitFs s)
           = ((ret, res), s2)"
        by (metis prod.exhaust)
      note eq = readFilesRecursively_Dir [OF True l dir_def rootDir_def ig_def pd]
      have "reach (awaitFs s) s2"
        using "1.IH" [OF _ dir_def rootDir_def ig_def refl tree] True l pd by simp
      then have r2: "reach s s2"
        using a reach_trans by blast
      have "reach s2 (snd (processChunks env dir rootDir ig (map fst (filter isFile dirents))
                0 0 res s2))"
        by (rule reach_processChunks)
      then have "reach s (snd (processChunks env dir rootDir ig (map fst (filter isFile dirents))
                0 0 res s2))"
        using r2 reach_trans by blast
      then show ?thesis
        using r2 by (simp add: tree eq)
    qed
  qed
next
  case (2 env dir rootDir ignoreFilter results s)
  show ?case by (simp add: processDirectories.simps reach_refl)
next
  case (3 env direntName subtree rest dir rootDir ignoreFilter results s)
  define fullPath where "fullPath = safePathJoin env dir direntName"
  define rel where "rel = safeRelativePath env rootDir fullPath"
  show ?case
  proof (cases "isLoadingDirectory s")
    case False
    then show ?thesis by (simp add: processDirectories_idle reach_refl)
  next
    case l: True
    show ?thesis
    proof (cases "isAppBundle fullPath \<or> fullPath = appPath env \<or> outsideRoot env rel")
      case True
      then show ?thesis
        using "3.IH" (1) [OF _ fullPath_def rel_def] l
        by (simp add: processDirectories_skip [OF l fullPath_def rel_def True])
    next
      case nskip: False
      show ?thesis
      proof (cases "ignoreFilter rel")
        case True
        have "reach s (send scanningStatus s)"
          unfolding scanningStatus_def using l by (auto intro: reach.intros)
        moreover have "reach (send scanningStatus s)
            (snd (processDirectories env rest dir rootDir ignoreFilter results
                    (send scanningStatus s)))"
          using "3.IH" (4) [OF _ fullPath_def rel_def nskip] l True by simp
        ultimately show ?thesis
          using reach_trans
          by (simp add: processDirectories_ignored [where ig = ignoreFilter, OF l fullPath_def rel_def nskip True])
      next
        case nig: False
        obtain sub s1 where rf:
          "readFilesRecursively env subtree fullPath rootDir (Some ignoreFilter) s = (sub, s1)"
          by (metis prod.exhaust)
        note eq = processDirectories_descend [where ig = ignoreFilter, OF l fullPath_def rel_def nskip nig rf]
        have r1: "reach s s1"
          using "3.IH" (2) [OF _ fullPath_def rel_def nskip nig] l rf by simp
        show ?thesis
        proof (cases "isLoadingDirectory s1")
          case False
          then show ?thesis
            using r1 by (simp add: eq)
        next
          case l1: True
          have "reach s (send scanningStatus s1)"
            unfolding scanningStatus_def using r1 l1 by (rule reach_send)
          moreover have "reach (send scanningStatus s1)
              (snd (processDirectories env rest dir rootDir ignoreFilter (results @ sub)
                      (send scanningStatus s1)))"
            using "3.IH" (3) [OF _ fullPath_def rel_def nskip nig rf [symmetric]] l l1 by simp
          ultimately show ?thesis
            using l1 reach_trans by (simp add: eq)
        qed
      qed
    qed
  qed
qed







lemma reach_no_cancel:
  assumes "reach s s'" and "cancelIn s = None"
  shows "cancelIn s' = None \<and> isLoadingDirectory s' = isLoadingDirectory s \<and>
         loadingTimeoutId s' = loadingTimeoutId s \<and> currentWatcher s' = currentWatcher s \<and>
         windowUsable s' = windowUsable s"
  using assms
  by (induction rule: reach.induct) (auto simp: awaitFs_def suspend_def send_def)

lemma reach_status:
  assumes "reach s s'"
  shows "\<exists>ms. sent s' = sent s @ ms \<and> list_all isStatus ms"
  using assms
proof (induction rule: reach.induct)
  case (reach_refl s)
  show ?case by simp
next
  case (reach_await s s')
  then obtain ms where "sent s' = sent s @ ms" "list_all isStatus ms" by blast
  then show ?case
    by (cases "cancelIn s'"; cases "the (cancelIn s')")
       (auto simp: awaitFs_def suspend_def cancelDirectoryLoading_def send_def cancelledStatus_def
          Let_def)
next
  case (reach_send s s' b)
  then show ?case by (auto simp: send_def)
qed



lemma closeWatcher_none: "currentWatcher s = None \<Longrightarrow> closeWatcher s = s"
  by (simp add: closeWatcher_def)


subsection \<open>A concrete scan of \<open>/r\<close>\<close>

lemma run_state_fields:
  "isLoadingDirectory (run_state l w m c n) = l"
  "currentWatcher (run_state l w m c n) = w"
  "sent (run_state l w m c n) = m"
  "windowUsable (run_state l w m c n)"
  "cancelIn (run_state l w m c n) = c"
  "fsCalls (run_state l w m c n) = n"
  by (simp_all add: run_state_def)

lemma run_state_await:
  "awaitFs (run_state True w m None n) = run_state True w m None (Suc n)"
  "awaitFs (run_state True w m (Some k) n) =
     (if k = 0 then run_state False w (m @ [cancelledStatus]) None (Suc n)
      else run_state True w m (Some (k - 1)) (Suc n))"
  by (auto simp: awaitFs_def suspend_def cancelDirectoryLoading_def send_def run_state_def
           split: nat.splits)

lemma run_state_send: "send x (run_state l w m c n) = run_state l w (m @ [x]) c n"
  by (simp add: send_def run_state_def)

lemmas run_state_simps = run_state_fields run_state_await run_state_send

lemma demo_tree_paths:
  "ensureAbsolutePath (posix_env e d) ''/r/sub'' = ''/r/sub''"
  "safePathJoin (posix_env e d) ''/r'' ''node_modules'' = ''/r/node_modules''"
  "safePathJoin (posix_env e d) ''/r'' ''sub'' = ''/r/sub''"
  "safePathJoin (posix_env e d) ''/r/sub'' ''x.txt'' = ''/r/sub/x.txt''"
  "safeRelativePath (posix_env e d) ''/r'' ''/r/node_modules'' = ''node_modules''"
  "safeRelativePath (posix_env e d) ''/r'' ''/r/sub'' = ''sub''"
  "safeRelativePath (posix_env e d) ''/r'' ''/r/sub/x.txt'' = ''sub/x.txt''"
  "\<not> outsideRoot (posix_env e d) ''node_modules''"
  "\<not> outsideRoot (posix_env e d) ''sub''"
  "\<not> outsideRoot (posix_env e d) ''sub/x.txt''"
  "\<not> isAppBundle ''/r/node_modules''"
  "\<not> isAppBundle ''/r/sub''"
  "\<not> isAppBundle ''/r/sub/x.txt''"
  "startsWith ''node_modules'' ''node_modules''"
  "\<not> startsWith ''sub'' ''node_modules''"
  "\<not> startsWith ''sub/x.txt'' ''node_modules''"
  "posix_extname ''/r/sub/x.txt'' = ''.txt''"
  "normalizePath (posix_env e d) ''/r/sub/x.txt'' = ''/r/sub/x.txt''"
  "normalizePath (posix_env e d) ''/r/a.txt'' = ''/r/a.txt''"
  "statOf demo_disk ''/r/sub/x.txt'' = Inr 4"
  "readOf demo_disk ''/r/sub/x.txt'' = Inr ''text''"
  by (simp_all add: posix_env_fields path_defs posix_defs Let_def statOf_def readOf_def
        demo_disk_def)

lemmas chunk_eval = processChunks.simps processChunkFile_def Let_def CHUNK_SIZE_def
  MAX_FILE_SIZE_def isBinaryFile_def countTokens_def fallbackCount_def List.map_filter_def
  demo_defs demo_facts demo_tree_paths run_state_simps demo_record_def



lemma demo_chunk_sub_free:
  "processChunks demo_env ''/r/sub'' ''/r'' demo_ignore [''x.txt''] 0 0 []
     (run_state True w m None n)
   = ([demo_record ''x.txt'' ''/r/sub/x.txt'' ''sub/x.txt'' 4 ''text''],
      run_state True w (m @ [processingStatus 1 1]) None (Suc (Suc n)))"
  by (simp add: chunk_eval)

lemma demo_chunk_root_free:
  "processChunks demo_env ''/r'' ''/r'' demo_ignore [''a.txt''] 0 0 rs
     (run_state True w m None n)
   = (rs @ [demo_record ''a.txt'' ''/r/a.txt'' ''a.txt'' 2 ''hi''],
      run_state True w (m @ [processingStatus 1 1]) None (Suc (Suc n)))"
  by (simp add: chunk_eval)

lemma demo_walk_sub:
  assumes "awaitFs (run_state True w m c n) = run_state True w m c1 (Suc n)"
  shows "readFilesRecursively demo_env (Dir [(''x.txt'', File)]) ''/r/sub'' ''/r''
           (Some demo_ignore) (run_state True w m c n)
         = processChunks demo_env ''/r/sub'' ''/r'' demo_ignore [''x.txt''] 0 0 []
             (run_state True w m c1 (Suc n))"
proof -
  have d: "processDirectories demo_env (filter isDirectory [(''x.txt'', File)]) ''/r/sub'' ''/r''
             demo_ignore [] (awaitFs (run_state True w m c n))
           = ((False, []), run_state True w m c1 (Suc n))"
    by (simp add: assms processDirectories.simps(1))
  show ?thesis
    using readFilesRecursively_Dir [where env = demo_env and dir = "''/r/sub''"
        and rootDir = "''/r''" and ig = demo_ignore and ?ig0.0 = "Some demo_ignore"
        and ?dir0.0 = "''/r/sub''" and ?rootDir0.0 = "''/r''", OF _ _ _ _ _ d]
    by (simp add: assms run_state_simps demo_defs demo_facts demo_tree_paths)
qed

lemma demo_tree_entries:
  "filter isDirectory [(''node_modules'', Dir [(''m.js'', File)]),
      (''sub'', Dir [(''x.txt'', File)]), (''a.txt'', File)]
   = [(''node_modules'', Dir [(''m.js'', File)]), (''sub'', Dir [(''x.txt'', File)])]"
  "map fst (filter isFile [(''node_modules'', Dir [(''m.js'', File)]),
      (''sub'', Dir [(''x.txt'', File)]), (''a.txt'', File)]) = [''a.txt'']"
  by simp_all

lemma demo_walk_root:
  assumes a: "awaitFs (run_state True w m c n) = run_state True w m c1 (Suc n)"
    and sub: "readFilesRecursively demo_env (Dir [(''x.txt'', File)]) ''/r/sub'' ''/r''
               (Some demo_ignore) (run_state True w (m @ [scanningStatus]) c1 (Suc n))
              = (xs, run_state True w m2 c2 n2)"
  shows "readFilesRecursively demo_env demo_tree ''/r'' ''/r'' (Some demo_ignore)
           (run_state True w m c n)
         = processChunks demo_env ''/r'' ''/r'' demo_ignore [''a.txt''] 0 0 xs
             (run_state True w (m2 @ [scanningStatus]) c2 n2)"
proof -
  let ?s1 = "run_state True w m c1 (Suc n)"
  let ?s2 = "run_state True w (m @ [scanningStatus]) c1 (Suc n)"
  let ?s3 = "run_state True w m2 c2 n2"
  let ?s4 = "run_state True w (m2 @ [scanningStatus]) c2 n2"
  have d2: "processDirectories demo_env [(''sub'', Dir [(''x.txt'', File)])] ''/r'' ''/r''
              demo_ignore [] ?s2 = ((False, xs), ?s4)"
    using processDirectories_descend [where env = demo_env and ig = demo_ignore
        and fullPath = "''/r/sub''" and rel = "''sub''" and results = "[]" and rest = "[]"
        and dir = "''/r''" and rootDir = "''/r''" and nm = "''sub''"
        and t = "Dir [(''x.txt'', File)]" and s = ?s2 and sub = xs and ?s1.0 = ?s3,
        OF _ _ _ _ _ sub]
    by (simp add: run_state_simps demo_defs demo_facts demo_tree_paths
          processDirectories.simps(1))
  have d1: "processDirectories demo_env
              [(''node_modules'', Dir [(''m.js'', File)]), (''sub'', Dir [(''x.txt'', File)])]
              ''/r'' ''/r'' demo_ignore [] ?s1 = ((False, xs), ?s4)"
    using processDirectories_ignored [where env = demo_env and ig = demo_ignore
        and fullPath = "''/r/node_modules''" and rel = "''node_modules''" and s = ?s1
        and dir = "''/r''" and rootDir = "''/r''" and nm = "''node_modules''"
        and t = "Dir [(''m.js'', File)]" and rest = "[(''sub'', Dir [(''x.txt'', File)])]"
        and results = "[]"] d2
    by (simp add: run_state_simps demo_defs demo_facts demo_tree_paths)
  show ?thesis
    unfolding demo_tree_def
    using readFilesRecursively_Dir [where env = demo_env and dir = "''/r''"
        and rootDir = "''/r''" and ig = demo_ignore and ?ig0.0 = "Some demo_ignore"
        and ?dir0.0 = "''/r''" and ?rootDir0.0 = "''/r''"
        and s = "run_state True w m c n" and ret = False and res = xs and ?s2.0 = ?s4
        and dirents = "[(''node_modules'', Dir [(''m.js'', File)]),
                        (''sub'', Dir [(''x.txt'', File)]), (''a.txt'', File)]"] a d1
    by (simp add: run_state_simps demo_defs demo_facts demo_tree_entries)
qed

lemma demo_walk_complete:
  "readFilesRecursively demo_env demo_tree ''/r'' ''/r'' (Some demo_ignore)
     (run_state True w m None n)
   = ([demo_record ''x.txt'' ''/r/sub/x.txt'' ''sub/x.txt'' 4 ''text'',
       demo_record ''a.txt'' ''/r/a.txt'' ''a.txt'' 2 ''hi''],
      run_state True w
        (m @ [scanningStatus, processingStatus 1 1, scanningStatus, processingStatus 1 1])
        None (Suc (Suc (Suc (Suc (Suc (Suc n)))))))"
proof -
  have a: "awaitFs (run_state True w m None n) = run_state True w m None (Suc n)"
    by (simp add: run_state_simps)
  have b: "awaitFs (run_state True w (m @ [scanningStatus]) None (Suc n))
           = run_state True w (m @ [scanningStatus]) None (Suc (Suc n))"
    by (simp add: run_state_simps)
  show ?thesis
    by (simp add: demo_walk_root [OF a] demo_walk_sub [OF b] demo_chunk_sub_free
          demo_chunk_root_free)
qed


lemma run_state_handler:
  "setupDirectoryLoadingTimeout ((run_state False w m c n)\<lparr> isLoadingDirectory := True \<rparr>)
     = run_state True w m c n"
  "finallyReset (run_state l w m c n) = run_state False w m c n"
  "(run_state l w m c n)\<lparr> loadingTimeoutId := None, isLoadingDirectory := False \<rparr>
     = run_state False w m c n"
  "(run_state l w m c n)\<lparr> currentWatcher := Some r \<rparr> = run_state l (Some r) m c n"
  "closeWatcher (run_state l None m c n) = run_state l None m c n"
  by (simp_all add: run_state_def setupDirectoryLoadingTimeout_def finallyReset_def
        closeWatcher_def)

lemma demo_request_facts:
  "loadGitignore demo_env ''/r'' = demo_ignore"
  "ensureAbsolutePath demo_env ''/r'' = ''/r''"
  "chokidarLoaded demo_env"
  by (simp_all add: demo_defs demo_facts)

lemma demo_request_complete:
  "requestFileList demo_env demo_tree ''/r'' (run_state False None [] None 0)
   = run_state False (Some ''/r'')
       [startStatus, scanningStatus, processingStatus 1 1, scanningStatus,
        processingStatus 1 1, completeStatus (Suc (Suc 0)),
        FileListData (map (serializeFile demo_env ''/r'')
          [demo_record ''x.txt'' ''/r/sub/x.txt'' ''sub/x.txt'' 4 ''text'',
           demo_record ''a.txt'' ''/r/a.txt'' ''a.txt'' 2 ''hi''])] None
       (Suc (Suc (Suc (Suc (Suc (Suc 0))))))"
  by (simp add: requestFileList_def Let_def run_state_simps run_state_handler
        demo_request_facts demo_walk_complete)



subsection \<open>Cancellation\<close>




subsection \<open>Requests during a scan\<close>

text \<open>
  C7. A request that arrives while a scan is active (and no cancel request is handled at
  the same moment) is answered with the \<open>busy\<close> status and nothing else: the state after
  the handler is the state before it with the \<open>busy\<close> message appended (and the watcher
  handle, which is empty during a scan, cleared). The loading flag stays set and the timer
  armed, no file-system call is made, and nothing depends on the folder requested.
\<close>

theorem busy_request_is_rejected:
  assumes "isLoadingDirectory s" and "windowUsable s"
    and "currentWatcher s = None \<or> cancelIn s = None"
  shows "requestFileList env tree folderPath s
           = s\<lparr> currentWatcher := None, sent := sent s @ [busyStatus] \<rparr> \<and>
         isLoadingDirectory (requestFileList env tree folderPath s) \<and>
         loadingTimeoutId (requestFileList env tree folderPath s) = loadingTimeoutId s \<and>
         fsCalls (requestFileList env tree folderPath s) = fsCalls s \<and>
         newMessages s (requestFileList env tree folderPath s) = [busyStatus]"
  using assms
  by (auto simp: requestFileList_def closeWatcher_def suspend_def send_def newMessages_def
        Let_def split: option.splits)

theorem busy_request_is_rejected_witness:
  "isLoadingDirectory scanning_state \<and> windowUsable scanning_state \<and>
   isLoadingDirectory (requestFileList demo_env demo_tree ''/other'' scanning_state) \<and>
   fsCalls (requestFileList demo_env demo_tree ''/other'' scanning_state)
     = fsCalls scanning_state \<and>
   newMessages scanning_state (requestFileList demo_env demo_tree ''/other'' scanning_state)
     = [busyStatus]"
proof -
  have h: "isLoadingDirectory scanning_state" "windowUsable scanning_state"
    "currentWatcher scanning_state = None \<or> cancelIn scanning_state = None"
    by (simp_all add: scanning_state_fields)
  show ?thesis
    using busy_request_is_rejected [OF h, of demo_env demo_tree "''/other''"] h by blast
qed

subsection \<open>Ignored paths\<close>

lemma chunk_record_not_ignored:
  "fst (processChunkFile env dir rootDir ig nm s) = Some r \<Longrightarrow> \<not> ig (relativePath r)"
  by (auto simp: processChunkFile_def Let_def chunkFileError_def split: if_splits sum.splits)

lemma runChunk_records:
  assumes "\<And>nm s r. fst (processChunkFile env dir rootDir ig nm s) = Some r \<Longrightarrow> G r"
  shows "\<forall>r\<in>set (List.map_filter (\<lambda>r. r) (fst (runChunk env dir rootDir ig nms s))). G r"
proof (induction nms arbitrary: s)
  case Nil
  show ?case by (simp add: List.map_filter_simps)
next
  case (Cons nm nms)
  obtain r s1 where p: "processChunkFile env dir rootDir ig nm s = (r, s1)"
    by (metis prod.exhaust)
  obtain rs s2 where q: "runChunk env dir rootDir ig nms s1 = (rs, s2)"
    by (metis prod.exhaust)
  have "\<forall>x\<in>set (List.map_filter (\<lambda>r. r) rs). G x"
    using Cons.IH [of s1] q by simp
  moreover have "r = Some x \<Longrightarrow> G x" for x
    using assms [of nm s x] p by simp
  ultimately show ?case
    using p q by (cases r) (auto simp: List.map_filter_simps)
qed

lemma processChunks_records:
  assumes "\<And>nm s r. fst (processChunkFile env dir rootDir ig nm s) = Some r \<Longrightarrow> G r"
    and "\<forall>r\<in>set results. G r"
  shows "\<forall>r\<in>set (fst (processChunks env dir rootDir ig files i n results s)). G r"
  using assms
proof (induction env dir rootDir ig files i n results s rule: processChunks.induct)
  case (1 env dir rootDir ig files i n results s)
  note g = "1.prems"(1)
  note res = "1.prems"(2)
  show ?case
  proof (cases "i < length files \<and> isLoadingDirectory s")
    case False
    then have "processChunks env dir rootDir ig files i n results s = (results, s)"
      by (auto simp: processChunks.simps [of env dir rootDir ig files i n results s])
    then show ?thesis using res by simp
  next
    case True
    let ?chunk = "take CHUNK_SIZE (drop i files)"
    obtain rs s1 where rc: "runChunk env dir rootDir ig ?chunk s = (rs, s1)"
      by (cases "runChunk env dir rootDir ig ?chunk s")
    show ?thesis
    proof (cases "isLoadingDirectory s1")
      case False
      then have "processChunks env dir rootDir ig files i n results s = (results, s1)"
        using True rc
        by (simp add: processChunks.simps [of env dir rootDir ig files i n results s])
      then show ?thesis using res by simp
    next
      case l1: True
      let ?results = "results @ List.map_filter (\<lambda>r. r) rs"
      let ?s = "send (processingStatus (n + length ?chunk) (length files)) s1"
      have eq: "processChunks env dir rootDir ig files i n results s
                = processChunks env dir rootDir ig files (i + CHUNK_SIZE) (n + length ?chunk)
                    ?results ?s"
        using True rc l1
        by (simp add: processChunks.simps [of env dir rootDir ig files i n results s])
      have "\<forall>r\<in>set (List.map_filter (\<lambda>r. r) (fst (runChunk env dir rootDir ig ?chunk s))). G r"
        by (rule runChunk_records) (rule g)
      then have res': "\<forall>r\<in>set ?results. G r"
        using res rc by auto
      have a: "i < length files" and b: "\<not> \<not> isLoadingDirectory s"
        and c: "\<not> \<not> isLoadingDirectory s1"
        using True l1 by simp_all
      have "\<forall>r\<in>set (fst (processChunks env dir rootDir ig files (i + CHUNK_SIZE)
                 (n + length ?chunk) ?results ?s)). G r"
        by (rule "1.IH" [OF a b refl rc [symmetric] c g res'])
      then show ?thesis
        by (simp only: eq)
    qed
  qed
qed

lemma walk_records:
  "ig0 \<noteq> None \<Longrightarrow>
   (\<And>dir rootDir nm s r.
      fst (processChunkFile env dir rootDir (the ig0) nm s) = Some r \<Longrightarrow> G r) \<Longrightarrow>
   \<forall>r\<in>set (fst (readFilesRecursively env tree dir0 rootDir0 ig0 s)). G r"
  "\<forall>r\<in>set results. G r \<Longrightarrow>
   (\<And>dir rootDir nm s r.
      fst (processChunkFile env dir rootDir ig nm s) = Some r \<Longrightarrow> G r) \<Longrightarrow>
   \<forall>r\<in>set (snd (fst (processDirectories env ds dir rootDir ig results s))). G r"
proof (induction env tree dir0 rootDir0 ig0 s and env ds dir rootDir ig results s
       rule: readFilesRecursively_processDirectories.induct)
  case (1 env tree dir0 rootDir0 ignoreFilter0 s)
  show ?case
  proof (cases "isLoadingDirectory s \<and>
                (\<exists>dirents. tree = Dir dirents \<and> isLoadingDirectory (awaitFs s))")
    case False
    then show ?thesis
      by (cases "isLoadingDirectory s")
         (simp_all add: readFilesRecursively_idle readFilesRecursively_stop)
  next
    case True
    then obtain dirents where l0: "isLoadingDirectory s" and tree: "tree = Dir dirents"
      and l: "isLoadingDirectory (awaitFs s)"
      by blast
    define dir where "dir = ensureAbsolutePath env dir0"
    define rootDir where
      "rootDir = ensureAbsolutePath env (if rootDir0 = [] then dir else rootDir0)"
    define ig where
      "ig = (case ignoreFilter0 of None \<Rightarrow> loadGitignore env rootDir | Some f \<Rightarrow> f)"
    have ig: "ig = the ignoreFilter0"
      using "1.prems"(1) by (auto simp: ig_def)
    have g: "fst (processChunkFile env dir' rootDir' ig nm s') = Some r \<Longrightarrow> G r"
      for dir' rootDir' nm s' r
      using "1.prems"(2) [of dir' rootDir' nm s' r] ig by simp
    obtain rr s2 where pd0:
      "processDirectories env (filter isDirectory dirents) dir rootDir ig [] (awaitFs s)
         = (rr, s2)"
      by (cases "processDirectories env (filter isDirectory dirents) dir rootDir ig []
                   (awaitFs s)")
    obtain ret res where rr: "rr = (ret, res)"
      by (cases rr)
    have pd:
      "processDirectories env (filter isDirectory dirents) dir rootDir ig [] (awaitFs s)
         = ((ret, res), s2)"
      using pd0 rr by simp
    note eq = readFilesRecursively_Dir [OF l0 l dir_def rootDir_def ig_def pd]
    have "\<forall>r\<in>set (snd (fst (processDirectories env (filter isDirectory dirents) dir rootDir
                 ig [] (awaitFs s)))). G r"
    proof (rule "1.IH" [OF _ dir_def rootDir_def ig_def refl tree])
      show "\<not> \<not> isLoadingDirectory s" using l0 by simp
      show "\<not> \<not> isLoadingDirectory (awaitFs s)" using l by simp
      show "\<forall>r\<in>set []. G r" by simp
      show "\<And>dir rootDir nm s r.
              fst (processChunkFile env dir rootDir ig nm s) = Some r \<Longrightarrow> G r"
        by (rule g)
    qed
    then have res: "\<forall>r\<in>set res. G r"
      using pd by simp
    have "\<forall>r\<in>set (fst (processChunks env dir rootDir ig
        (map fst (filter isFile dirents)) 0 0 res s2)). G r"
      by (rule processChunks_records [OF g res])
    then show ?thesis
      using res by (simp add: tree eq)
  qed
next
  case (2 env dir rootDir ignoreFilter results s)
  then show ?case by (simp add: processDirectories.simps)
next
  case (3 env direntName subtree rest dir rootDir ignoreFilter results s)
  note g = "3.prems"(2)
  define fullPath where "fullPath = safePathJoin env dir direntName"
  define rel where "rel = safeRelativePath env rootDir fullPath"
  show ?case
  proof (cases "isLoadingDirectory s")
    case False
    then show ?thesis using "3.prems"(1) by (simp add: processDirectories_idle)
  next
    case l: True
    then have nl: "\<not> \<not> isLoadingDirectory s" by simp
    show ?thesis
    proof (cases "isAppBundle fullPath \<or> fullPath = appPath env \<or> outsideRoot env rel")
      case True
      have "\<forall>r\<in>set (snd (fst (processDirectories env rest dir rootDir ignoreFilter
                   results s))). G r"
        by (rule "3.IH"(1) [OF nl fullPath_def rel_def True "3.prems"(1) g])
      then show ?thesis
        by (simp add: processDirectories_skip [OF l fullPath_def rel_def True])
    next
      case nskip: False
      show ?thesis
      proof (cases "ignoreFilter rel")
        case True
        then have nn: "\<not> \<not> ignoreFilter rel" by simp
        have "\<forall>r\<in>set (snd (fst (processDirectories env rest dir rootDir ignoreFilter
                   results (send scanningStatus s)))). G r"
          by (rule "3.IH"(4) [OF nl fullPath_def rel_def nskip nn "3.prems"(1) g])
        then show ?thesis
          by (simp add: processDirectories_ignored
                [where ig = ignoreFilter, OF l fullPath_def rel_def nskip True])
      next
        case nig: False
        obtain sub s1 where rf:
          "readFilesRecursively env subtree fullPath rootDir (Some ignoreFilter) s = (sub, s1)"
          by (cases "readFilesRecursively env subtree fullPath rootDir (Some ignoreFilter) s")
        note eq = processDirectories_descend
          [where ig = ignoreFilter, OF l fullPath_def rel_def nskip nig rf]
        have "\<forall>r\<in>set (fst (readFilesRecursively env subtree fullPath rootDir
                     (Some ignoreFilter) s)). G r"
        proof (rule "3.IH"(2) [OF nl fullPath_def rel_def nskip nig])
          show "Some ignoreFilter \<noteq> None" by simp
          show "\<And>dir rootDir nm s r.
                  fst (processChunkFile env dir rootDir (the (Some ignoreFilter)) nm s) = Some r
                  \<Longrightarrow> G r"
            using g by simp
        qed
        then have "\<forall>r\<in>set (results @ sub). G r"
          using "3.prems"(1) rf by auto
        show ?thesis
        proof (cases "isLoadingDirectory s1")
          case False
          then show ?thesis using "3.prems"(1) by (simp add: eq)
        next
          case True
          then have n1: "\<not> \<not> isLoadingDirectory s1" by simp
          have "\<forall>r\<in>set (snd (fst (processDirectories env rest dir rootDir ignoreFilter
                     (results @ sub) (send scanningStatus s1)))). G r"
            by (rule "3.IH"(3) [OF nl fullPath_def rel_def nskip nig rf [symmetric] n1
                  \<open>\<forall>r\<in>set (results @ sub). G r\<close> g])
          then show ?thesis using True by (simp add: eq)
        qed
      qed
    qed
  qed
qed

lemma status_listsNoIgnored: "isStatus m \<Longrightarrow> listsNoIgnored ig m"
  by (cases m) simp_all

lemma statuses_listNoIgnored: "list_all isStatus ms \<Longrightarrow> list_all (listsNoIgnored ig) ms"
  by (induction ms) (simp_all add: status_listsNoIgnored)

lemma closeWatcher_status:
  "\<exists>ms. sent (closeWatcher s) = sent s @ ms \<and> list_all isStatus ms"
  by (auto simp: closeWatcher_def suspend_def cancelDirectoryLoading_def send_def Let_def
        cancelledStatus_def split: option.splits nat.splits)

lemma scan_records_not_ignored:
  "\<forall>f\<in>set (fst (readFilesRecursively env tree dir0 rootDir0 (Some ig) s)).
     \<not> ig (relativePath f)"
proof (rule walk_records(1))
  show "Some ig \<noteq> None" by simp
  show "\<And>dir rootDir nm s r.
          fst (processChunkFile env dir rootDir (the (Some ig)) nm s) = Some r
          \<Longrightarrow> \<not> ig (relativePath r)"
    using chunk_record_not_ignored by simp
qed

lemma requestFileList_messages:
  assumes "ig = loadGitignore env (ensureAbsolutePath env folderPath)"
  shows "\<exists>ms. sent (requestFileList env tree folderPath s) = sent s @ ms \<and>
              list_all (listsNoIgnored ig) ms"
proof -
  obtain ms1 where c: "sent (closeWatcher s) = sent s @ ms1" "list_all isStatus ms1"
    using closeWatcher_status by blast
  show ?thesis
  proof (cases "isLoadingDirectory s")
    case True
    have "sent (requestFileList env tree folderPath s) = sent s @ ms1 \<or>
          sent (requestFileList env tree folderPath s) = sent s @ (ms1 @ [busyStatus])"
      using True c(1) by (simp add: requestFileList_def Let_def send_def)
    moreover have "list_all isStatus (ms1 @ [busyStatus])"
      using c(2) by (simp add: busyStatus_def)
    ultimately show ?thesis
      using c(2) statuses_listNoIgnored by blast
  next
    case False
    define rootDir where "rootDir = ensureAbsolutePath env folderPath"
    define s4 where "s4 = send startStatus (setupDirectoryLoadingTimeout
                            ((closeWatcher s)\<lparr> isLoadingDirectory := True \<rparr>))"
    obtain files s5 where w:
      "readFilesRecursively env tree rootDir rootDir (Some ig) s4 = (files, s5)"
      by (cases "readFilesRecursively env tree rootDir rootDir (Some ig) s4")
    have s4: "sent s4 = sent s @ (ms1 @ [startStatus])"
      using c(1) by (simp add: s4_def send_def setupDirectoryLoadingTimeout_def)
    have "reach s4 s5"
      using reach_walk(1) [of s4 env tree rootDir rootDir "Some ig"] w by simp
    then obtain ms2 where ms2: "sent s5 = sent s4 @ ms2" "list_all isStatus ms2"
      using reach_status by blast
    have files: "list_all (\<lambda>f. \<not> ig (relativePath f)) (map (serializeFile env folderPath) files)"
      using scan_records_not_ignored [of env tree rootDir rootDir ig s4] w
      by (simp add: list_all_iff serializeFile_def)
    let ?done = "[completeStatus (length files),
                  FileListData (map (serializeFile env folderPath) files)]"
    have "sent (requestFileList env tree folderPath s) = sent s5 \<or>
          sent (requestFileList env tree folderPath s) = sent s5 @ ?done"
      using False w assms
      by (simp add: requestFileList_def Let_def s4_def rootDir_def finallyReset_def send_def)
    then have "sent (requestFileList env tree folderPath s) = sent s @ (ms1 @ [startStatus] @ ms2) \<or>
          sent (requestFileList env tree folderPath s)
            = sent s @ (ms1 @ [startStatus] @ ms2 @ ?done)"
      using ms2(1) s4 by simp
    moreover have "list_all (listsNoIgnored ig) (ms1 @ [startStatus] @ ms2)"
      using c(2) ms2(2) by (simp add: statuses_listNoIgnored startStatus_def)
    moreover have "list_all (listsNoIgnored ig) (ms1 @ [startStatus] @ ms2 @ ?done)"
      using c(2) ms2(2) files
      by (simp add: statuses_listNoIgnored startStatus_def completeStatus_def)
    ultimately show ?thesis by blast
  qed
qed

lemma watcherEvent_ignored:
  assumes "safeRelativePath env rootDir (ensureAbsolutePath env (eventPath ev)) \<noteq> []"
    and "ig (safeRelativePath env rootDir (ensureAbsolutePath env (eventPath ev)))"
  shows "watcherEvent env rootDir ig ev = []"
  using assms by (simp add: watcherEvent_def watcherIgnored_def Let_def)

lemma watcherHandler_ignored:
  assumes "ig (safeRelativePath env (ensureAbsolutePath env rootDir)
                 (ensureAbsolutePath env (normalizePath env p)))"
  shows "watcherHandler env rootDir ig (Add p) = []"
    and "watcherHandler env rootDir ig (Change p) = []"
  using assms by (simp_all add: processSingleFile_def Let_def)

text \<open>
  C3. A file whose root-relative path the ignore rules of the session match is never
  reported. For the scan: no record that the walk returns has such a \<open>relativePath\<close>, and
  the handler sends status messages and a \<open>file-list-data\<close> message without such a record,
  nothing else. For the watcher: a change at a path whose root-relative path is not empty
  and is matched raises no message, whether the file was there when the watcher was armed
  or not, because chokidar raises no event for a path that the \<open>ignored\<close> predicate
  rejects; and the \<open>add\<close> and \<open>change\<close> handlers drop a matched path by the test of
  \<open>processSingleFile\<close> itself. (The \<open>unlink\<close> handler has no test of its own: for a removal
  the property rests on the \<open>ignored\<close> predicate alone.)
\<close>

theorem ignored_paths_are_never_reported:
  assumes "rootDir = ensureAbsolutePath env folderPath" and "ig = loadGitignore env rootDir"
  shows "(\<forall>f\<in>set (fst (readFilesRecursively env tree rootDir rootDir (Some ig) s0)).
            \<not> ig (relativePath f)) \<and>
         (\<exists>ms. sent (requestFileList env tree folderPath s) = sent s @ ms \<and>
               list_all (listsNoIgnored ig) ms) \<and>
         (\<forall>ev. safeRelativePath env rootDir (ensureAbsolutePath env (eventPath ev)) \<noteq> [] \<and>
               ig (safeRelativePath env rootDir (ensureAbsolutePath env (eventPath ev)))
               \<longrightarrow> watcherEvent env rootDir ig ev = []) \<and>
         (\<forall>p. ig (safeRelativePath env (ensureAbsolutePath env rootDir)
                    (ensureAbsolutePath env (normalizePath env p)))
              \<longrightarrow> watcherHandler env rootDir ig (Add p) = [] \<and>
                  watcherHandler env rootDir ig (Change p) = [])"
  using scan_records_not_ignored [of env tree rootDir rootDir ig s0]
    requestFileList_messages [of ig env folderPath tree s] assms
    watcherEvent_ignored [of env rootDir _ ig] watcherHandler_ignored [of ig env rootDir]
  by blast

lemma scanning_run_state: "scanning_state = run_state True None [] None 0"
  by (simp add: scanning_state_def idle_state_def run_state_def)

lemma idle_run_state_plain: "idle_state = run_state False None [] None 0"
  by (simp add: idle_state_def run_state_def)

lemma demo_ignored_paths:
  "ensureAbsolutePath (posix_env e d) ''/r/node_modules/m.js'' = ''/r/node_modules/m.js''"
  "normalizePath (posix_env e d) ''/r/node_modules/m.js'' = ''/r/node_modules/m.js''"
  "safeRelativePath (posix_env e d) ''/r'' ''/r/node_modules/m.js'' = ''node_modules/m.js''"
  "startsWith ''node_modules/m.js'' ''node_modules''"
  by (simp_all add: posix_env_fields path_defs posix_defs Let_def)

theorem ignored_paths_are_never_reported_witness:
  "demo_ignore ''node_modules/m.js'' \<and>
   map relativePath (fst (readFilesRecursively demo_env demo_tree ''/r'' ''/r''
       (Some demo_ignore) scanning_state)) = [''sub/x.txt'', ''a.txt''] \<and>
   list_all (\<lambda>f. \<not> demo_ignore (relativePath f))
     (fst (readFilesRecursively demo_env demo_tree ''/r'' ''/r'' (Some demo_ignore)
        scanning_state)) \<and>
   length (sent (requestFileList demo_env demo_tree ''/r'' idle_state)) = 7 \<and>
   list_all (listsNoIgnored demo_ignore)
     (sent (requestFileList demo_env demo_tree ''/r'' idle_state)) \<and>
   watcherEvent demo_env ''/r'' demo_ignore (Add ''/r/node_modules/m.js'') = [] \<and>
   watcherEvent demo_env ''/r'' demo_ignore (Unlink ''/r/node_modules/m.js'') = [] \<and>
   watcherHandler demo_env ''/r'' demo_ignore (Change ''/r/node_modules/m.js'') = []"
proof -
  have r: "''/r'' = ensureAbsolutePath demo_env ''/r''"
    and i: "demo_ignore = loadGitignore demo_env ''/r''"
    by (simp_all add: demo_request_facts)
  have p: "ensureAbsolutePath demo_env ''/r/node_modules/m.js'' = ''/r/node_modules/m.js''"
    "normalizePath demo_env ''/r/node_modules/m.js'' = ''/r/node_modules/m.js''"
    "safeRelativePath demo_env ''/r'' ''/r/node_modules/m.js'' = ''node_modules/m.js''"
    "demo_ignore ''node_modules/m.js''"
    by (simp_all add: demo_defs demo_ignored_paths posix_env_fields)
  have w: "map relativePath (fst (readFilesRecursively demo_env demo_tree ''/r'' ''/r''
             (Some demo_ignore) scanning_state)) = [''sub/x.txt'', ''a.txt'']"
    by (simp add: scanning_run_state demo_walk_complete demo_record_def)
  have n: "length (sent (requestFileList demo_env demo_tree ''/r'' idle_state)) = 7"
    "sent idle_state = []"
    by (simp_all add: idle_run_state_plain demo_request_complete run_state_simps)
  note t = ignored_paths_are_never_reported [OF r i, of demo_tree scanning_state idle_state]
  have t1: "list_all (\<lambda>f. \<not> demo_ignore (relativePath f))
              (fst (readFilesRecursively demo_env demo_tree ''/r'' ''/r'' (Some demo_ignore)
                 scanning_state))"
    using t by (simp add: list_all_iff)
  have t2: "list_all (listsNoIgnored demo_ignore)
              (sent (requestFileList demo_env demo_tree ''/r'' idle_state))"
    using t n(2) by auto
  have t3: "watcherEvent demo_env ''/r'' demo_ignore (Add ''/r/node_modules/m.js'') = []"
    "watcherEvent demo_env ''/r'' demo_ignore (Unlink ''/r/node_modules/m.js'') = []"
    using t p r by (simp_all del: watcherHandler.simps)
  have t4: "watcherHandler demo_env ''/r'' demo_ignore (Change ''/r/node_modules/m.js'') = []"
    using t p r by (simp del: watcherHandler.simps)
  show ?thesis
    using p(4) w t1 n(1) t2 t3 t4 by blast
qed

subsection \<open>The formatter\<close>

lemma codeUnitCompare_refl: "codeUnitCompare a a = 0"
  by (induction a) simp_all

lemma codeUnitCompare_sym: "codeUnitCompare a b < 0 \<longleftrightarrow> 0 < codeUnitCompare b a"
  by (induction a b rule: codeUnitCompare.induct) (auto simp: of_char_eq_iff)

lemma codeUnitCompare_trans:
  "codeUnitCompare a b \<le> 0 \<Longrightarrow> codeUnitCompare b c \<le> 0 \<Longrightarrow> codeUnitCompare a c \<le> 0"
proof (induction a b arbitrary: c rule: codeUnitCompare.induct)
  case 1
  then show ?case by simp
next
  case (2 d ds)
  then show ?case by (cases c) simp_all
next
  case (3 c' cs)
  then show ?case by simp
next
  case (4 x xs d ds)
  show ?case
  proof (cases c)
    case Nil
    then show ?thesis using 4 by (simp split: if_splits)
  next
    case (Cons e es)
    then show ?thesis
      using 4 by (auto split: if_splits simp: of_char_eq_iff)
  qed
qed

lemma consistent_codeUnitCompare: "consistentComparator codeUnitCompare"
  unfolding consistentComparator_def
  using codeUnitCompare_refl codeUnitCompare_sym codeUnitCompare_trans by blast

lemma consistent_negate:
  assumes "consistentComparator cmp"
  shows "consistentComparator (\<lambda>a b. - cmp a b)"
proof -
  have r: "\<And>a. cmp a a = 0" and s: "\<And>a b. cmp a b < 0 \<longleftrightarrow> 0 < cmp b a"
    and t: "\<And>a b c. cmp a b \<le> 0 \<Longrightarrow> cmp b c \<le> 0 \<Longrightarrow> cmp a c \<le> 0"
    using assms unfolding consistentComparator_def by blast+
  have le: "cmp a b \<le> 0 \<longleftrightarrow> 0 \<le> cmp b a" for a b
    using s [of a b] s [of b a] by linarith
  have nt: "- cmp a c \<le> 0" if "- cmp a b \<le> 0" "- cmp b c \<le> 0" for a b c
  proof -
    have "cmp c b \<le> 0" "cmp b a \<le> 0" using that le by simp_all
    then have "cmp c a \<le> 0" by (rule t)
    then show ?thesis using le by simp
  qed
  have ns: "- cmp a b < 0 \<longleftrightarrow> 0 < - cmp b a" for a b
    using s [of b a] by simp
  show ?thesis
    unfolding consistentComparator_def
  proof (intro conjI allI impI)
    fix a
    show "- cmp a a = 0" by (simp add: r)
  next
    fix a b
    show "(- cmp a b < 0) = (0 < - cmp b a)" by (rule ns)
  next
    fix a b c
    assume "- cmp a b \<le> 0 \<and> - cmp b c \<le> 0"
    then show "- cmp a c \<le> 0" using nt by blast
  qed
qed

lemma consistent_key:
  assumes "consistentComparator cmp"
  shows "consistentComparator (\<lambda>a b. cmp (f a) (f b))"
  using assms unfolding consistentComparator_def by blast

lemma consistent_difference: "consistentComparator (\<lambda>a b. int (f a) - int (f b))"
  unfolding consistentComparator_def by auto

lemma consistent_zero: "consistentComparator (\<lambda>a b. 0 :: int)"
  unfolding consistentComparator_def by simp

lemma consistent_compareFiles:
  assumes "consistentComparator (localeCompare env)"
  shows "consistentComparator (compareFiles env sortOrder)"
proof -
  define parts where "parts = splitOn (CHR ''-'') sortOrder"
  define comparison where "comparison = (\<lambda>(a :: file_data) (b :: file_data).
      if hd parts = ''name'' then localeCompare env (name a) (name b)
      else if hd parts = ''tokens'' then int (tokenCount a) - int (tokenCount b)
      else if hd parts = ''size'' then int (size_bytes a) - int (size_bytes b)
      else 0)"
  have c: "consistentComparator comparison"
    unfolding comparison_def
    using consistent_key [OF assms, of name] consistent_difference [of tokenCount]
      consistent_difference [of size_bytes] consistent_zero [where 'a = file_data]
    by (cases "hd parts = ''name''"; cases "hd parts = ''tokens''";
        cases "hd parts = ''size''"; simp)
  have "compareFiles env sortOrder =
          (if (if 1 < length parts then Some (parts ! 1) else None) = Some ''asc''
           then comparison else (\<lambda>a b. - comparison a b))"
    by (intro ext) (simp add: compareFiles_def Let_def parts_def comparison_def)
  then show ?thesis
    using c consistent_negate [OF c] by simp
qed

lemma insertBy_set: "set (insertBy cmp x ys) = insert x (set ys)"
  by (induction ys) auto

lemma insertBy_count: "count_list (insertBy cmp x ys) a = count_list (x # ys) a"
  by (induction ys) auto

lemma sortBy_count: "count_list (sortBy cmp xs) a = count_list xs a"
  by (induction xs) (simp_all add: insertBy_count)

lemma sortBy_set: "set (sortBy cmp xs) = set xs"
  by (induction xs) (simp_all add: insertBy_set)

lemma insertBy_sorted:
  assumes "consistentComparator cmp" and "sorted_wrt (\<lambda>a b. cmp a b \<le> 0) ys"
  shows "sorted_wrt (\<lambda>a b. cmp a b \<le> 0) (insertBy cmp x ys)"
  using assms(2)
proof (induction ys)
  case Nil
  show ?case by simp
next
  case (Cons y ys)
  have s: "\<And>a b. cmp a b < 0 \<longleftrightarrow> 0 < cmp b a"
    and t: "\<And>a b c. cmp a b \<le> 0 \<Longrightarrow> cmp b c \<le> 0 \<Longrightarrow> cmp a c \<le> 0"
    using assms(1) unfolding consistentComparator_def by blast+
  show ?case
  proof (cases "cmp x y \<le> 0")
    case True
    then have "\<forall>b\<in>set ys. cmp x b \<le> 0"
      using Cons.prems t by auto
    then show ?thesis using True Cons.prems by simp
  next
    case False
    then have "cmp y x \<le> 0"
      using s [of y x] by linarith
    then show ?thesis
      using False Cons by (auto simp: insertBy_set)
  qed
qed

lemma sortBy_sorted:
  "consistentComparator cmp \<Longrightarrow> sorted_wrt (\<lambda>a b. cmp a b \<le> 0) (sortBy cmp xs)"
  by (induction xs) (simp_all add: insertBy_sorted)

lemma insertBy_filter:
  assumes "consistentComparator cmp" and "sorted_wrt (\<lambda>a b. cmp a b \<le> 0) ys"
  shows "filter (\<lambda>b. cmp a b = 0) (insertBy cmp x ys) = filter (\<lambda>b. cmp a b = 0) (x # ys)"
  using assms(2)
proof (induction ys)
  case Nil
  show ?case by simp
next
  case (Cons y ys)
  have s: "\<And>a b. cmp a b < 0 \<longleftrightarrow> 0 < cmp b a"
    and t: "\<And>a b c. cmp a b \<le> 0 \<Longrightarrow> cmp b c \<le> 0 \<Longrightarrow> cmp a c \<le> 0"
    using assms(1) unfolding consistentComparator_def by blast+
  show ?case
  proof (cases "cmp x y \<le> 0")
    case True
    then show ?thesis by simp
  next
    case False
    have "\<not> (cmp a x = 0 \<and> cmp a y = 0)"
    proof
      assume e: "cmp a x = 0 \<and> cmp a y = 0"
      then have "cmp x a \<le> 0"
        using s [of x a] s [of a x] by linarith
      then have "cmp x y \<le> 0"
        using e t [of x a y] by simp
      then show False using False by simp
    qed
    then show ?thesis
      using False Cons by auto
  qed
qed

lemma sortBy_filter:
  assumes "consistentComparator cmp"
  shows "filter (\<lambda>b. cmp a b = 0) (sortBy cmp xs) = filter (\<lambda>b. cmp a b = 0) xs"
proof (induction xs)
  case Nil
  show ?case by simp
next
  case (Cons x xs)
  have "filter (\<lambda>b. cmp a b = 0) (sortBy cmp (x # xs))
        = filter (\<lambda>b. cmp a b = 0) (x # sortBy cmp xs)"
    using insertBy_filter [OF assms sortBy_sorted [OF assms]] by simp
  then show ?case using Cons by simp
qed

lemma sortBy_sortResult:
  "consistentComparator cmp \<Longrightarrow> sortResult cmp xs (sortBy cmp xs)"
  unfolding sortResult_def by (simp add: sortBy_count sortBy_sorted sortBy_filter)

lemma sorted_stable_unique:
  fixes cmp :: "'a \<Rightarrow> 'a \<Rightarrow> int"
  assumes "\<And>a. cmp a a = 0" and "\<And>a b. cmp a b < 0 \<longleftrightarrow> 0 < cmp b a"
    and "sorted_wrt (\<lambda>a b. cmp a b \<le> 0) ys" and "sorted_wrt (\<lambda>a b. cmp a b \<le> 0) zs"
    and "set ys \<union> set zs \<subseteq> A"
    and "\<forall>a\<in>A. filter (\<lambda>b. cmp a b = 0) ys = filter (\<lambda>b. cmp a b = 0) zs"
  shows "ys = zs"
  using assms(3-6)
proof (induction ys arbitrary: zs)
  case Nil
  show ?case
  proof (cases zs)
    case Nil
    then show ?thesis by simp
  next
    case (Cons z zs')
    then have "z \<in> A" using Nil.prems(3) by simp
    then have "filter (\<lambda>b. cmp z b = 0) [] = filter (\<lambda>b. cmp z b = 0) (z # zs')"
      using Nil.prems(4) Cons by blast
    then show ?thesis using assms(1) by simp
  qed
next
  case (Cons y ys)
  have yA: "y \<in> A" using Cons.prems(3) by simp
  have "filter (\<lambda>b. cmp y b = 0) (y # ys) = filter (\<lambda>b. cmp y b = 0) zs"
    using Cons.prems(4) yA by blast
  then have fy: "y # filter (\<lambda>b. cmp y b = 0) ys = filter (\<lambda>b. cmp y b = 0) zs"
    using assms(1) by simp
  then obtain z zs' where zs: "zs = z # zs'"
    by (cases zs) auto
  have zA: "z \<in> A" using Cons.prems(3) zs by simp
  have "filter (\<lambda>b. cmp z b = 0) (y # ys) = filter (\<lambda>b. cmp z b = 0) (z # zs')"
    using Cons.prems(4) zA zs by blast
  then have fz: "filter (\<lambda>b. cmp z b = 0) (y # ys) = z # filter (\<lambda>b. cmp z b = 0) zs'"
    using assms(1) by simp
  have "y \<in> set (filter (\<lambda>b. cmp y b = 0) zs)"
    using fy by (metis list.set_intros(1))
  then have "y \<in> set zs"
    by simp
  then have "cmp z y \<le> 0"
    using Cons.prems(2) zs assms(1) [of y] by auto
  moreover have "z \<in> set (filter (\<lambda>b. cmp z b = 0) (y # ys))"
    using fz by (metis list.set_intros(1))
  then have "z \<in> set (y # ys)"
    by (metis filter_is_subset subsetD)
  then have "cmp y z \<le> 0"
    using Cons.prems(1) assms(1) [of y] by auto
  ultimately have e: "cmp y z = 0" "cmp z y = 0"
    using assms(2) [of y z] assms(2) [of z y] by linarith+
  have "y = z"
    using fy e(1) zs by simp
  have "ys = zs'"
  proof (rule Cons.IH)
    show "sorted_wrt (\<lambda>a b. cmp a b \<le> 0) ys" using Cons.prems(1) by simp
    show "sorted_wrt (\<lambda>a b. cmp a b \<le> 0) zs'" using Cons.prems(2) zs by simp
    show "set ys \<union> set zs' \<subseteq> A" using Cons.prems(3) zs by auto
    show "\<forall>a\<in>A. filter (\<lambda>b. cmp a b = 0) ys = filter (\<lambda>b. cmp a b = 0) zs'"
    proof
      fix a assume "a \<in> A"
      then have "filter (\<lambda>b. cmp a b = 0) (y # ys) = filter (\<lambda>b. cmp a b = 0) (y # zs')"
        using Cons.prems(4) zs \<open>y = z\<close> by blast
      then show "filter (\<lambda>b. cmp a b = 0) ys = filter (\<lambda>b. cmp a b = 0) zs'"
        by (cases "cmp a y = 0") simp_all
    qed
  qed
  then show ?case using \<open>y = z\<close> zs by simp
qed

lemma sortResult_unique:
  assumes "consistentComparator cmp" and "sortResult cmp xs ys" and "sortResult cmp xs zs"
  shows "ys = zs"
proof (rule sorted_stable_unique [where cmp = cmp and A = "set xs \<union> set ys \<union> set zs"])
  show "\<And>a. cmp a a = 0" "\<And>a b. cmp a b < 0 \<longleftrightarrow> 0 < cmp b a"
    using assms(1) unfolding consistentComparator_def by blast+
  show "sorted_wrt (\<lambda>a b. cmp a b \<le> 0) ys" "sorted_wrt (\<lambda>a b. cmp a b \<le> 0) zs"
    using assms(2,3) unfolding sortResult_def by blast+
  show "set ys \<union> set zs \<subseteq> set xs \<union> set ys \<union> set zs" by blast
  show "\<forall>a\<in>set xs \<union> set ys \<union> set zs.
          filter (\<lambda>b. cmp a b = 0) ys = filter (\<lambda>b. cmp a b = 0) zs"
  proof
    fix a assume a: "a \<in> set xs \<union> set ys \<union> set zs"
    have c: "\<And>a. cmp a a = 0"
      using assms(1) unfolding consistentComparator_def by blast
    have ys: "\<forall>a\<in>set xs \<union> set ys. count_list ys a = count_list xs a"
      and zs: "\<forall>a\<in>set xs \<union> set zs. count_list zs a = count_list xs a"
      using assms(2,3) unfolding sortResult_def by blast+
    have "set ys = set xs"
      using ys by (metis (no_types, lifting) Un_iff count_list_0_iff subsetI subset_antisym)
    moreover have "set zs = set xs"
      using zs by (metis (no_types, lifting) Un_iff count_list_0_iff subsetI subset_antisym)
    ultimately have "a \<in> set xs \<union> set ys" "a \<in> set xs \<union> set zs"
      using a by auto
    then show "filter (\<lambda>b. cmp a b = 0) ys = filter (\<lambda>b. cmp a b = 0) zs"
      using assms(2,3) unfolding sortResult_def by simp
  qed
qed

text \<open>
  C9. \<open>formatContentForCopying\<close> is deterministic. The one operation in it whose result
  the language does not fix by an algorithm is \<open>sort\<close>. If \<open>localeCompare\<close> is a consistent
  comparator, as the language requires, then any two results that \<open>sort\<close> may give for the
  selected files yield the same text, so two calls with the same arguments return the same
  string: the value of \<open>formatContentForCopying\<close>. When no element of \<open>files\<close> has its
  path among \<open>selectedFiles\<close>, that string is \<open>No files selected.\<close>
\<close>

theorem formatContentForCopying_deterministic:
  assumes "consistentComparator (localeCompare env)"
    and "sortResult (compareFiles env sortOrder)
           (filter (\<lambda>file. path file \<in> set selectedFiles) files) ys1"
    and "sortResult (compareFiles env sortOrder)
           (filter (\<lambda>file. path file \<in> set selectedFiles) files) ys2"
  shows "assembleContent env files ys1 includeFileTree selectedFolder userInstructions
           = assembleContent env files ys2 includeFileTree selectedFolder userInstructions \<and>
         assembleContent env files ys1 includeFileTree selectedFolder userInstructions
           = formatContentForCopying env files selectedFiles sortOrder includeFileTree
               selectedFolder userInstructions \<and>
         (filter (\<lambda>file. path file \<in> set selectedFiles) files = [] \<longrightarrow>
            formatContentForCopying env files selectedFiles sortOrder includeFileTree
              selectedFolder userInstructions = ''No files selected.'')"
proof -
  let ?cmp = "compareFiles env sortOrder"
  let ?sel = "filter (\<lambda>file. path file \<in> set selectedFiles) files"
  have c: "consistentComparator ?cmp"
    using assms(1) by (rule consistent_compareFiles)
  have "ys1 = sortBy ?cmp ?sel" "ys2 = sortBy ?cmp ?sel"
    using sortResult_unique [OF c _ sortBy_sortResult [OF c]] assms(2,3) by blast+
  then show ?thesis
    by (simp add: formatContentForCopying_def assembleContent_def)
qed

lemma demo_format_env_fields:
  "utilsNormalizePath demo_format_env = replaceBackslashes"
  "basename demo_format_env = posix_basename"
  "isSubPath demo_format_env parent child = startsWith child (parent @ ''/'')"
  "generateAsciiFileTree demo_format_env fs folder = concat (map (\<lambda>f. name f @ newline) fs)"
  "getLanguageFromFilename demo_format_env nm = drop 1 (posix_extname nm)"
  "localeCompare demo_format_env = codeUnitCompare"
  by (simp_all add: demo_format_env_def)

lemma demo_compare_name:
  "compareFiles demo_format_env ''name-asc'' a b = codeUnitCompare (name a) (name b)"
  by (simp add: compareFiles_def Let_def demo_format_env_fields)

lemma demo_names_compare:
  "codeUnitCompare ''a.txt'' ''b.txt'' = - 1"
  "codeUnitCompare ''b.txt'' ''a.txt'' = 1"
  "codeUnitCompare ''a.txt'' ''a.txt'' = 0"
  "codeUnitCompare ''b.txt'' ''b.txt'' = 0"
  by (simp_all add: codeUnitCompare_refl)

lemma demo_files_sorted:
  "sortResult (compareFiles demo_format_env ''name-asc'')
     (filter (\<lambda>file. path file \<in> set [''/r/a.txt'', ''/r/b.txt'']) demo_files)
     (rev demo_files)"
  by (simp add: sortResult_def demo_files_def demo_record_def demo_compare_name
        demo_names_compare)

lemma demo_blocks:
  "fileBlock demo_format_env (Some ''/r'') (demo_record ''a.txt'' ''/r/a.txt'' ''a.txt'' 4 ''text'')
     = ''File: r/a.txt'' @ newline @ ''```txt'' @ newline @ ''text'' @ newline @ ''```'' @
       newline @ newline"
  "fileBlock demo_format_env (Some ''/r'') (demo_record ''b.txt'' ''/r/b.txt'' ''b.txt'' 2 ''hi'')
     = ''File: r/b.txt'' @ newline @ ''```txt'' @ newline @ ''hi'' @ newline @ ''```'' @
       newline @ newline"
  by (simp_all add: fileBlock_def getRelativePath_def Let_def demo_format_env_fields
        demo_record_def startsWith_def replaceBackslashes_def backslash_def posix_basename_def
        posix_extname_def)

lemma demo_assembled:
  "assembleContent demo_format_env demo_files (rev demo_files) True (Some ''/r'') '' go ''
   = ''<FILE STRUCTURE>'' @ newline @ ''/r'' @ newline @ ''b.txt'' @ newline @ ''a.txt'' @
     newline @ newline @ ''</FILE STRUCTURE>'' @ newline @ newline @
     ''<CODEBASE>'' @ newline @
     ''File: r/a.txt'' @ newline @ ''```txt'' @ newline @ ''text'' @ newline @ ''```'' @
     newline @ newline @
     ''File: r/b.txt'' @ newline @ ''```txt'' @ newline @ ''hi'' @ newline @ ''```'' @
     newline @ newline @
     ''</CODEBASE>'' @ newline @ newline @
     ''<user_instructions>'' @ newline @ ''go'' @ newline @ ''</user_instructions>''"
proof -
  have t: "trim '' go '' = ''go''"
    by (simp add: trim_def isSpaceChar_def)
  have f: "getFilesInFolder demo_format_env demo_files ''/r'' = demo_files"
    by (simp add: getFilesInFolder_def Let_def demo_format_env_fields demo_files_def
          demo_record_def startsWith_def replaceBackslashes_def backslash_def)
  have g: "generateAsciiFileTree demo_format_env demo_files ''/r''
           = ''b.txt'' @ newline @ ''a.txt'' @ newline"
    by (simp add: demo_format_env_fields demo_files_def demo_record_def)
  have n: "utilsNormalizePath demo_format_env ''/r'' = ''/r''"
    by (simp add: demo_format_env_fields replaceBackslashes_def backslash_def)
  have r: "demo_files \<noteq> []"
    "map (fileBlock demo_format_env (Some ''/r'')) (rev demo_files)
     = [fileBlock demo_format_env (Some ''/r'')
          (demo_record ''a.txt'' ''/r/a.txt'' ''a.txt'' 4 ''text''),
        fileBlock demo_format_env (Some ''/r'')
          (demo_record ''b.txt'' ''/r/b.txt'' ''b.txt'' 2 ''hi'')]"
    unfolding demo_files_def by simp_all
  show ?thesis
    by (simp add: assembleContent_def Let_def t f g n r demo_blocks)
qed

theorem formatContentForCopying_deterministic_witness:
  "consistentComparator (localeCompare demo_format_env) \<and>
   sortResult (compareFiles demo_format_env ''name-asc'')
     (filter (\<lambda>file. path file \<in> set [''/r/a.txt'', ''/r/b.txt'']) demo_files)
     (rev demo_files) \<and>
   formatContentForCopying demo_format_env demo_files [''/r/a.txt'', ''/r/b.txt'']
       ''name-asc'' True (Some ''/r'') '' go ''
   = ''<FILE STRUCTURE>'' @ newline @ ''/r'' @ newline @ ''b.txt'' @ newline @ ''a.txt'' @
     newline @ newline @ ''</FILE STRUCTURE>'' @ newline @ newline @
     ''<CODEBASE>'' @ newline @
     ''File: r/a.txt'' @ newline @ ''```txt'' @ newline @ ''text'' @ newline @ ''```'' @
     newline @ newline @
     ''File: r/b.txt'' @ newline @ ''```txt'' @ newline @ ''hi'' @ newline @ ''```'' @
     newline @ newline @
     ''</CODEBASE>'' @ newline @ newline @
     ''<user_instructions>'' @ newline @ ''go'' @ newline @ ''</user_instructions>'' \<and>
   formatContentForCopying demo_format_env demo_files [''/r/c.txt''] ''name-asc'' True
       (Some ''/r'') '' go '' = ''No files selected.''"
proof -
  have c: "consistentComparator (localeCompare demo_format_env)"
    by (simp add: demo_format_env_fields consistent_codeUnitCompare)
  have e: "filter (\<lambda>file. path file \<in> set [''/r/c.txt'']) demo_files = []"
    by (simp add: demo_files_def demo_record_def)
  have s: "sortResult (compareFiles demo_format_env ''name-asc'')
             (filter (\<lambda>file. path file \<in> set [''/r/c.txt'']) demo_files) []"
    unfolding e by (simp add: sortResult_def)
  show ?thesis
    using formatContentForCopying_deterministic [OF c demo_files_sorted demo_files_sorted,
            of True "Some ''/r''" "'' go ''"]
      formatContentForCopying_deterministic [OF c s s, of True "Some ''/r''" "'' go ''"]
      c demo_files_sorted e demo_assembled
    by simp
qed

end
